theory Spec2Isabelle
  imports Main "HOL-Library.AList"
begin

section \<open>Gateway events\<close>

text \<open>
  The decoded JSON objects of \<^verbatim>\<open>JanusClient.ts\<close>: the interfaces \<^verbatim>\<open>JanusEvent\<close> and
  \<^verbatim>\<open>JanusVideoroomEvent\<close>. An optional field is an \<open>option\<close>; the verb \<open>janus\<close> is a
  string, the empty string standing for a missing verb (both are falsy in the guard
  \<^verbatim>\<open>!evt.janus\<close>). Identifiers are JavaScript numbers that the gateway issues as
  non-negative integers.
\<close>

record publisher =
  pub_id :: nat
  display :: string
  periscope_user_id :: "string option"

record videoroom_data =
  videoroom :: string
  room :: "string option"
  vr_id :: "nat option"
  ptype :: "string option"
  publishers :: "publisher list option"
  reason :: "string option"

record plugindata =
  plugin :: string
  data :: videoroom_data

record jsep =
  jsep_type :: string
  sdp :: string

record janus_event =
  janus :: string
  transaction :: "string option"
  session_id :: "nat option"
  sender :: "nat option"
  plugindata :: "plugindata option"
  jsep :: "jsep option"

section \<open>Errors, log lines, requests and the trace of effects\<close>

text \<open>
  A thrown value: an \<^verbatim>\<open>Error\<close> made by the class, or the \<^verbatim>\<open>TypeError\<close> and \<^verbatim>\<open>SyntaxError\<close> that the
  runtime raises (a property read on \<^verbatim>\<open>undefined\<close>, a \<^verbatim>\<open>fetch\<close> that fails, a body that is not
  JSON), each with its message.
\<close>

datatype js_error = Error string | TypeError string | SyntaxError string

fun message :: "js_error \<Rightarrow> string" where
  "message (Error m) = m"
| "message (TypeError m) = m"
| "message (SyntaxError m) = m"

fun error_name :: "js_error \<Rightarrow> string" where
  "error_name (Error m) = ''Error''"
| "error_name (TypeError m) = ''TypeError''"
| "error_name (SyntaxError m) = ''SyntaxError''"

text \<open>
  The template \<^verbatim>\<open>`${error}`\<close>, that is \<^verbatim>\<open>Error.prototype.toString\<close>: the name alone when the
  message is empty, else the name, a colon and the message.
\<close>

definition toString :: "js_error \<Rightarrow> string" where
  "toString e =
     (if message e = [] then error_name e else error_name e @ '': '' @ message e)"

datatype level = Debug | Info | Warn | Err

datatype promise = Pending | Fulfilled janus_event | Rejected js_error

text \<open>What \<^verbatim>\<open>this.emit\<close> is called with, one constructor per channel the class emits on.\<close>

datatype emitted =
    ErrorEvent js_error
  | WarningEvent js_error
  | SubscribedSpeaker string nat
  | PublishersUpdated "publisher list"
  | Hangup videoroom_data

text \<open>
  The body of a \<^verbatim>\<open>"janus":"message"\<close> request. The room, the user id, the stream name and
  the credential come from the immutable configuration and are left out.
  \<open>Configure (Some uuid)\<close> is the body built by \<^verbatim>\<open>configurePublisher\<close>, \<open>Configure None\<close>
  the one built by \<^verbatim>\<open>restartIce\<close>, which has no \<^verbatim>\<open>session_uuid\<close>.
\<close>

datatype body =
    Join_publisher
  | Join_subscriber nat
  | Configure "string option"
  | Start

datatype sdp_kind = No_jsep | Offer bool | Answer

datatype request =
    Create_session
  | Attach_plugin
  | Janus_message "nat option" body sdp_kind
  | Poll

datatype pc_op =
    New_pc
  | Create_offer bool
  | Create_answer
  | Set_local_description
  | Set_remote_description
  | Add_track
  | Close
  | New_audio_source
  | Get_track
  | New_media_stream
  | Stream_add_track
  | Push_pcm_data "int list" nat nat

datatype action =
    Log level string
  | Emit emitted
  | Fetch request
  | External "nat option" pc_op
  | Set_timeout nat nat
  | Clear_timeout nat
  | On_janus nat
  | Remove_listener nat
  | Resolve nat janus_event
  | Reject nat js_error
  | Schedule_poll nat
  | Called_subscribeSpeaker string nat

section \<open>The client\<close>

text \<open>
  A pending call of \<^verbatim>\<open>waitForJanusEventWithPredicate\<close>: the closure \<^verbatim>\<open>eventHandler\<close> with
  the predicate and the label it captured, whether its timer is still armed (set, neither
  cleared nor fired), and the state of the promise it returned.
\<close>

record waiter =
  predicate :: "janus_event \<Rightarrow> bool"
  description :: string
  timer :: bool
  promise :: promise

record subscription =
  sub_handleId :: nat
  sub_pc :: nat

datatype ice = New | Checking | Connected | Completed | Disconnected | Failed | Closed

text \<open>
  The fields of \<^verbatim>\<open>class JanusClient\<close>, then the state of its base class \<^verbatim>\<open>EventEmitter\<close>
  (the handlers registered on the channel \<^verbatim>\<open>'janus'\<close>, in registration order, and whether
  the application has a listener on \<^verbatim>\<open>'error'\<close>), then the world the client acts on: the
  waiters created so far, the peer connections that are open, the ICE state of each, the
  peer connections carrying the listeners of \<^verbatim>\<open>setupPeerEvents\<close>, the timer of the poll
  loop, the number of external calls made so far (it indexes the answers of the
  environment) and the trace of effects. A peer connection is a number, \<open>nextPc\<close> being
  the next fresh one. The map \<open>subscribers\<close> is an association list in insertion order, as
  a JavaScript \<^verbatim>\<open>Map\<close> iterates. The array \<^verbatim>\<open>eventWaiters\<close> and the counters
  \<^verbatim>\<open>iceConnectionRetries\<close> and \<^verbatim>\<open>maxIceRetries\<close> are declared by the class and never
  read or written; only the counters are kept.
\<close>

record client =
  sessionId :: "nat option"
  handleId :: "nat option"
  publisherId :: "nat option"
  pc :: "nat option"
  localAudioSource :: bool
  pollActive :: bool
  iceConnectionRetries :: nat
  maxIceRetries :: nat
  subscribers :: "(string \<times> subscription) list"
  janusListeners :: "nat list"
  errorListener :: bool
  waiters :: "waiter list"
  openPcs :: "nat set"
  nextPc :: nat
  iceConnectionState :: "nat \<Rightarrow> ice"
  peerEvents :: "nat set"
  pollTimer :: "nat option"
  calls :: nat
  trace :: "action list"

text \<open>The state after the constructor: \<^verbatim>\<open>new JanusClient(config)\<close>.\<close>

definition new_client :: "bool \<Rightarrow> client" where
  "new_client listening =
     \<lparr> sessionId = None, handleId = None, publisherId = None, pc = None,
       localAudioSource = False, pollActive = False,
       iceConnectionRetries = 0, maxIceRetries = 3, subscribers = [],
       janusListeners = [], errorListener = listening, waiters = [],
       openPcs = {}, nextPc = 0, iceConnectionState = (\<lambda>_. New), peerEvents = {},
       pollTimer = None, calls = 0, trace = [] \<rparr>"

text \<open>\<^verbatim>\<open>!this.sessionId\<close>: \<^verbatim>\<open>undefined\<close> and \<open>0\<close> are both falsy.\<close>

definition falsy :: "nat option \<Rightarrow> bool" where
  "falsy x = (x = None \<or> x = Some 0)"

section \<open>Statements that may throw\<close>

text \<open>
  A method is a function from the client to a result and the client it leaves; a thrown
  error (a rejected promise, for an \<^verbatim>\<open>async\<close> method) is \<open>Inl\<close>.
\<close>

type_synonym 'a M = "client \<Rightarrow> (js_error + 'a) \<times> client"

definition retM :: "'a \<Rightarrow> 'a M" where
  "retM x s = (Inr x, s)"

definition throwM :: "js_error \<Rightarrow> 'a M" where
  "throwM e s = (Inl e, s)"

definition bindM :: "'a M \<Rightarrow> ('a \<Rightarrow> 'b M) \<Rightarrow> 'b M" where
  "bindM m k s = (case m s of (Inl e, s') \<Rightarrow> (Inl e, s') | (Inr x, s') \<Rightarrow> k x s')"

definition thenM :: "'a M \<Rightarrow> 'b M \<Rightarrow> 'b M" where
  "thenM m k = bindM m (\<lambda>_. k)"

definition tryCatch :: "'a M \<Rightarrow> (js_error \<Rightarrow> 'a M) \<Rightarrow> 'a M" where
  "tryCatch m h s = (case m s of (Inl e, s') \<Rightarrow> h e s' | (Inr x, s') \<Rightarrow> (Inr x, s'))"

definition modifyM :: "(client \<Rightarrow> client) \<Rightarrow> unit M" where
  "modifyM f s = (Inr (), f s)"

definition record_action :: "action \<Rightarrow> client \<Rightarrow> client" where
  "record_action a s = s\<lparr>trace := trace s @ [a]\<rparr>"

definition logger :: "level \<Rightarrow> string \<Rightarrow> unit M" where
  "logger l m = modifyM (record_action (Log l m))"

text \<open>
  \<^verbatim>\<open>this.emit(channel, payload)\<close>. An \<^verbatim>\<open>EventEmitter\<close> with no listener on \<^verbatim>\<open>'error'\<close>
  throws the error it is asked to emit; on every other channel the call returns.
  The application's listeners are taken to return normally.
\<close>

definition emit :: "emitted \<Rightarrow> unit M" where
  "emit ev s =
     (case ev of
        ErrorEvent e \<Rightarrow>
          if errorListener s then (Inr (), record_action (Emit ev) s)
          else (Inl e, record_action (Emit ev) s)
      | _ \<Rightarrow> (Inr (), record_action (Emit ev) s))"

section \<open>The event waiter: \<^verbatim>\<open>waitForJanusEventWithPredicate\<close>\<close>

text \<open>Settling a promise: \<^verbatim>\<open>resolve\<close> and \<^verbatim>\<open>reject\<close> change only a pending promise.\<close>

definition settle :: "promise \<Rightarrow> promise \<Rightarrow> promise" where
  "settle p q = (if p = Pending then q else p)"

text \<open>
  The promise executor runs at once: it arms the timer, then registers \<^verbatim>\<open>eventHandler\<close>
  on \<^verbatim>\<open>'janus'\<close>. The result is the index of the waiter, which stands for the promise.
\<close>

definition waitForJanusEventWithPredicate ::
    "(janus_event \<Rightarrow> bool) \<Rightarrow> nat \<Rightarrow> string \<Rightarrow> nat M" where
  "waitForJanusEventWithPredicate p timeout descr s =
     (let i = length (waiters s) in
      (Inr i,
       s\<lparr> waiters := waiters s @
             [\<lparr> predicate = p, description = descr, timer = True, promise = Pending \<rparr>],
          janusListeners := janusListeners s @ [i],
          trace := trace s @ [Set_timeout i timeout, On_janus i] \<rparr>))"

text \<open>
  The closure \<^verbatim>\<open>eventHandler\<close> of waiter \<open>i\<close>: on an event that satisfies the predicate it
  clears the timer, removes itself from \<^verbatim>\<open>'janus'\<close> and calls \<^verbatim>\<open>resolve\<close>.
\<close>

definition eventHandler :: "nat \<Rightarrow> janus_event \<Rightarrow> client \<Rightarrow> client" where
  "eventHandler i event s =
     (if i < length (waiters s) \<and> predicate (waiters s ! i) event then
        s\<lparr> waiters := (waiters s)[i := (waiters s ! i)
               \<lparr> timer := False,
                 promise := settle (promise (waiters s ! i)) (Fulfilled event) \<rparr>],
           janusListeners := remove1 i (janusListeners s),
           trace := trace s @ [Clear_timeout i, Remove_listener i, Resolve i event] \<rparr>
      else s)"

text \<open>
  The timer callback of waiter \<open>i\<close>, run by the event loop when the delay has elapsed and
  the timer was not cleared: it calls \<^verbatim>\<open>reject\<close> and does nothing else.
\<close>

definition timeoutFires :: "nat \<Rightarrow> client \<Rightarrow> client" where
  "timeoutFires i s =
     (if i < length (waiters s) \<and> timer (waiters s ! i) then
        s\<lparr> waiters := (waiters s)[i := (waiters s ! i)
               \<lparr> timer := False,
                 promise := settle (promise (waiters s ! i))
                   (Rejected (Error (''[JanusClient] Timeout waiting for '' @
                      description (waiters s ! i) @ '' event''))) \<rparr>],
           trace := trace s @
             [Reject i (Error (''[JanusClient] Timeout waiting for '' @
                description (waiters s ! i) @ '' event''))] \<rparr>
      else s)"

text \<open>
  Delivery of an event on the channel \<^verbatim>\<open>'janus'\<close>: \<^verbatim>\<open>EventEmitter.emit\<close> calls the
  handlers that were registered when the call began, in registration order. No statement
  of the class makes this call; it is what the waiters listen for.
\<close>

definition emitJanus :: "janus_event \<Rightarrow> client \<Rightarrow> client" where
  "emitJanus event s = fold (\<lambda>i. eventHandler i event) (janusListeners s) s"

section \<open>Dispatch of a polled event: \<^verbatim>\<open>handleJanusEvent\<close>\<close>

definition handleJanusEvent :: "janus_event \<Rightarrow> unit M" where
  "handleJanusEvent evt =
     (if janus evt = [] then retM ()
      else thenM (logger Debug ''[JanusClient] Received Janus event:'')
        (if janus evt = ''keepalive'' then
           logger Debug ''[JanusClient] Keepalive received''
         else if janus evt = ''event'' then
           (case plugindata evt of
              None \<Rightarrow> retM ()
            | Some pd \<Rightarrow>
                if plugin pd = ''janus.plugin.videoroom'' then
                  (if videoroom (data pd) = ''joined'' then
                     logger Info ''[JanusClient] Joined room as''
                   else if videoroom (data pd) = ''attached'' then
                     logger Info ''[JanusClient] Attached to stream:''
                   else if videoroom (data pd) = ''event'' then
                     (case publishers (data pd) of
                        None \<Rightarrow> retM ()
                      | Some ps \<Rightarrow>
                          thenM (logger Info ''[JanusClient] Publishers list updated:'')
                            (emit (PublishersUpdated ps)))
                   else if videoroom (data pd) = ''webrtcup'' then
                     logger Info ''[JanusClient] WebRTC connection established''
                   else if videoroom (data pd) = ''hangup'' then
                     thenM (logger Warn ''[JanusClient] Connection hung up:'')
                       (emit (Hangup (data pd)))
                   else logger Debug ''[JanusClient] Unknown videoroom event:'')
                else retM ())
         else if janus evt = ''success'' then
           logger Debug ''[JanusClient] Success response received''
         else logger Warn ''[JanusClient] Unknown Janus event type:''))"

text \<open>The predicate that \<^verbatim>\<open>joinRoom\<close> and \<^verbatim>\<open>initializeGuestSpeaker\<close> wait with.\<close>

definition is_joined :: "janus_event \<Rightarrow> bool" where
  "is_joined e =
     (janus e = ''event'' \<and>
      (case plugindata e of
         None \<Rightarrow> False
       | Some pd \<Rightarrow> plugin pd = ''janus.plugin.videoroom'' \<and> videoroom (data pd) = ''joined''))"

definition joined_event :: "nat \<Rightarrow> publisher list \<Rightarrow> janus_event" where
  "joined_event n ps =
     \<lparr> janus = ''event'', transaction = None, session_id = None, sender = None,
       plugindata = Some \<lparr> plugin = ''janus.plugin.videoroom'',
         data = \<lparr> videoroom = ''joined'', room = None, vr_id = Some n, ptype = None,
                  publishers = Some ps, reason = None \<rparr> \<rparr>,
       jsep = None \<rparr>"

section \<open>The environment\<close>

text \<open>
  What the gateway and the WebRTC library answer is not decided by the client. Every
  external call takes the next number from the counter \<open>calls\<close>, and the environment
  says, for each number, what that call meets: the reply to a session, attach or room
  request (the verb of the envelope and \<^verbatim>\<open>data.id\<close>), to a \<^verbatim>\<open>"janus":"message"\<close>
  request, to a long-poll request, and whether a call into the WebRTC or audio library
  throws. For each waiter it also gives the events delivered on \<^verbatim>\<open>'janus'\<close> while that
  waiter's timer runs.

  A reply is \<open>Unreachable\<close> (\<^verbatim>\<open>fetch\<close> rejects), \<open>Status c text\<close> (a response with
  \<^verbatim>\<open>resp.ok\<close> false, status \<open>c\<close> and body \<open>text\<close>), \<open>Malformed\<close> (a response with
  \<^verbatim>\<open>resp.ok\<close> true whose body is not JSON, so that \<^verbatim>\<open>resp.json()\<close> rejects) or \<open>Ok v\<close>.
\<close>

datatype 'a response = Unreachable | Status nat string | Malformed | Ok 'a

record env =
  ctl :: "nat \<Rightarrow> (string \<times> nat) response"
  msg :: "nat \<Rightarrow> unit response"
  polled :: "nat \<Rightarrow> janus_event response"
  throws :: "nat \<Rightarrow> bool"
  feed :: "nat \<Rightarrow> janus_event list"

definition getsM :: "(client \<Rightarrow> 'a) \<Rightarrow> 'a M" where
  "getsM f s = (Inr (f s), s)"

definition fetch :: "(nat \<Rightarrow> 'a response) \<Rightarrow> request \<Rightarrow> 'a response M" where
  "fetch answer req s =
     (let s' = s\<lparr>calls := Suc (calls s), trace := trace s @ [Fetch req]\<rparr> in
      case answer (calls s) of
        Unreachable \<Rightarrow> (Inl (TypeError ''fetch failed''), s')
      | r \<Rightarrow> (Inr r, s'))"

text \<open>A call into the WebRTC or audio library, on a peer connection or on no one.\<close>

definition external :: "env \<Rightarrow> nat option \<Rightarrow> pc_op \<Rightarrow> unit M" where
  "external env p op s =
     (let s' = s\<lparr>calls := Suc (calls s), trace := trace s @ [External p op]\<rparr> in
      if throws env (calls s) then (Inl (Error ''external call failed''), s')
      else (Inr (), s'))"

text \<open>A call on \<^verbatim>\<open>this.pc\<close>; on \<^verbatim>\<open>undefined\<close> it is a \<^verbatim>\<open>TypeError\<close>.\<close>

definition on_pc :: "env \<Rightarrow> pc_op \<Rightarrow> unit M" where
  "on_pc env op s =
     (case pc s of
        None \<Rightarrow> throwM (TypeError ''Cannot read properties of undefined'') s
      | Some p \<Rightarrow> external env (Some p) op s)"

text \<open>\<^verbatim>\<open>new RTCPeerConnection(...)\<close>: a fresh, open peer connection.\<close>

definition new_RTCPeerConnection :: "env \<Rightarrow> nat M" where
  "new_RTCPeerConnection env =
     thenM (external env None New_pc)
       (\<lambda>s. (Inr (nextPc s),
              s\<lparr>openPcs := insert (nextPc s) (openPcs s), nextPc := Suc (nextPc s)\<rparr>))"

text \<open>\<^verbatim>\<open>pc.close()\<close>.\<close>

definition pc_close :: "env \<Rightarrow> nat \<Rightarrow> unit M" where
  "pc_close env p =
     thenM (external env (Some p) Close)
       (modifyM (\<lambda>s. s\<lparr>openPcs := openPcs s - {p},
                        iceConnectionState := (iceConnectionState s)(p := Closed)\<rparr>))"

fun show_nat :: "nat \<Rightarrow> string" where
  "show_nat n =
     (if n < 10 then [char_of (48 + n)]
      else show_nat (n div 10) @ [char_of (48 + n mod 10)])"

section \<open>REST calls\<close>

text \<open>The transaction id of \<^verbatim>\<open>randomTid\<close> is random and plays no part; it is left out.\<close>

definition createSession :: "env \<Rightarrow> nat M" where
  "createSession env =
     tryCatch
       (bindM (fetch (ctl env) Create_session) (\<lambda>resp.
          case resp of
            Status c errorText \<Rightarrow>
              thenM (logger Err (''[JanusClient] Session creation failed: '' @
                                  show_nat c @ '' - '' @ errorText))
             (thenM (emit (ErrorEvent (Error (''[JanusClient] Session creation failed: '' @
                                  show_nat c @ '' - '' @ errorText))))
                (throwM (Error (''[JanusClient] Session creation failed: '' @
                                  show_nat c @ '' - '' @ errorText))))
          | Ok (verb, n) \<Rightarrow>
              if verb \<noteq> ''success'' then
                thenM (logger Err ''[JanusClient] Invalid session response: '')
               (thenM (emit (ErrorEvent (Error ''[JanusClient] Invalid session response: '')))
                  (throwM (Error ''[JanusClient] Invalid session response: '')))
              else thenM (logger Debug ''[JanusClient] Session created, ID:'') (retM n)
          | _ \<Rightarrow> throwM (SyntaxError ''Unexpected token'')))
       (\<lambda>error.
          thenM (logger Err ''[JanusClient] Failed to create session:'')
         (thenM (emit (ErrorEvent (Error (''[JanusClient] Session creation failed: '' @
                                            message error))))
            (throwM error)))"

definition attachPlugin :: "env \<Rightarrow> nat M" where
  "attachPlugin env s =
     (if falsy (sessionId s) then
        throwM (Error ''[JanusClient] attachPlugin => no sessionId'') s
      else
        tryCatch
          (bindM (fetch (ctl env) Attach_plugin) (\<lambda>resp.
             case resp of
               Status c errorText \<Rightarrow>
                 thenM (logger Err (''[JanusClient] attachPlugin failed: '' @
                                     show_nat c @ '' - '' @ errorText))
                (thenM (emit (ErrorEvent (Error (''[JanusClient] attachPlugin failed: '' @
                                     show_nat c @ '' - '' @ errorText))))
                   (throwM (Error (''[JanusClient] attachPlugin failed: '' @
                                     show_nat c @ '' - '' @ errorText))))
             | Ok (verb, n) \<Rightarrow>
                 if verb \<noteq> ''success'' then
                   thenM (logger Err ''[JanusClient] attachPlugin invalid response: '')
                  (thenM (emit (ErrorEvent
                            (Error ''[JanusClient] attachPlugin invalid response: '')))
                     (throwM (Error ''[JanusClient] attachPlugin invalid response: '')))
                 else thenM (logger Debug ''[JanusClient] Plugin attached, handle ID:'')
                        (retM n)
             | _ \<Rightarrow> throwM (SyntaxError ''Unexpected token'')))
          (\<lambda>error.
             thenM (logger Err ''[JanusClient] Failed to attach to plugin:'')
            (thenM (emit (ErrorEvent (Error (''[JanusClient] Plugin attachment failed: '' @
                                               message error))))
               (throwM error))) s)"

text \<open>
  \<^verbatim>\<open>sendJanusMessage(handleId, body, jsep)\<close>. The handle is whatever the caller read from
  \<^verbatim>\<open>this.handleId\<close> or from an attach. The body of a successful response is not read.
\<close>

definition sendJanusMessage :: "env \<Rightarrow> nat option \<Rightarrow> body \<Rightarrow> sdp_kind \<Rightarrow> unit M" where
  "sendJanusMessage env h b j s =
     (if falsy (sessionId s) then
        throwM (Error ''[JanusClient] No session for sendJanusMessage'') s
      else
        tryCatch
          (bindM (fetch (msg env) (Janus_message h b j))
             (\<lambda>resp.
                case resp of
                  Status c errorText \<Rightarrow>
                    throwM (Error (''[JanusClient] sendJanusMessage failed: status='' @
                                     show_nat c @ '', error='' @ errorText))
                | _ \<Rightarrow> retM ()))
          (\<lambda>error.
             thenM (logger Err ''[JanusClient] Failed to send Janus message:'')
               (throwM error)) s)"

section \<open>Awaiting a waiter\<close>

text \<open>
  \<^verbatim>\<open>await evtPromise\<close>: the environment delivers the events of that waiter's window on
  \<^verbatim>\<open>'janus'\<close>, then the event loop runs the timer if it is still armed, and the caller
  continues with the event or with the error of the promise. A waiter whose timer is no
  longer armed has a settled promise, so the last case does not arise.
\<close>

definition awaitM :: "env \<Rightarrow> nat \<Rightarrow> janus_event M" where
  "awaitM env i s =
     (let s' = timeoutFires i (fold emitJanus (feed env i) s) in
      if i < length (waiters s') then
        (case promise (waiters s' ! i) of
           Fulfilled e \<Rightarrow> (Inr e, s')
         | Rejected err \<Rightarrow> (Inl err, s')
         | Pending \<Rightarrow> (Inl (Error ''promise never settled''), s'))
      else (Inl (Error ''promise never settled''), s'))"

section \<open>Joining as publisher (host): \<^verbatim>\<open>joinRoom\<close>\<close>

definition joinRoom :: "env \<Rightarrow> nat option M" where
  "joinRoom env s =
     (if falsy (sessionId s) \<or> falsy (handleId s) then
        throwM (Error ''[JanusClient] no session/handle for joinRoom()'') s
      else
        thenM (logger Debug ''[JanusClient] joinRoom => start'')
          (tryCatch
             (bindM (waitForJanusEventWithPredicate is_joined 12000 ''Host Joined Event'')
                (\<lambda>evtPromise.
              bindM (getsM handleId) (\<lambda>h.
              thenM (sendJanusMessage env h Join_publisher No_jsep)
             (bindM (awaitM env evtPromise) (\<lambda>evt.
                case plugindata evt of
                  None \<Rightarrow> throwM (TypeError ''Cannot read properties of undefined'')
                | Some pd \<Rightarrow>
                    thenM (logger Debug ''[JanusClient] joined room => publisherId='')
                      (retM (vr_id (data pd))))))))
             (\<lambda>error.
                thenM (logger Err ''[JanusClient] Failed to join room:'') (throwM error))) s)"

section \<open>The publisher's peer connection\<close>

text \<open>
  \<^verbatim>\<open>setupPeerEvents\<close> attaches three listeners to \<^verbatim>\<open>this.pc\<close>; \<open>peerEvents\<close> records the
  peer connections that carry them.
\<close>

definition setupPeerEvents :: "unit M" where
  "setupPeerEvents =
     modifyM (\<lambda>s. case pc s of
                     None \<Rightarrow> s
                   | Some p \<Rightarrow> s\<lparr>peerEvents := insert p (peerEvents s)\<rparr>)"

definition setupPeerConnection :: "env \<Rightarrow> unit M" where
  "setupPeerConnection env =
     thenM (logger Debug ''[JanusClient] Setting up peer connection with ICE servers:'')
    (bindM (new_RTCPeerConnection env) (\<lambda>p.
     thenM (modifyM (\<lambda>s. s\<lparr>pc := Some p\<rparr>))
       setupPeerEvents))"

definition enableLocalAudio :: "env \<Rightarrow> unit M" where
  "enableLocalAudio env s =
     (if pc s = None then
        logger Warn ''[JanusClient] enableLocalAudio => No RTCPeerConnection'' s
      else if localAudioSource s then
        logger Debug ''[JanusClient] localAudioSource already active'' s
      else
        tryCatch
          (thenM (external env None New_audio_source)
          (thenM (modifyM (\<lambda>s. s\<lparr>localAudioSource := True\<rparr>))
          (thenM (external env None Get_track)
          (thenM (external env None New_media_stream)
          (thenM (external env None Stream_add_track)
                 (on_pc env Add_track))))))
          (\<lambda>error. logger Err ''[JanusClient] Failed to enable local audio:'') s)"

text \<open>
  \<^verbatim>\<open>pushLocalAudio(samples, sampleRate, channels)\<close>. The frame is handed to
  \<^verbatim>\<open>pushPcmData\<close> of the audio source, which belongs to the environment.
\<close>

definition pushLocalAudio :: "env \<Rightarrow> int list \<Rightarrow> nat \<Rightarrow> nat \<Rightarrow> unit M" where
  "pushLocalAudio env samples sampleRate channels =
     thenM
       (\<lambda>s. if \<not> localAudioSource s then
               thenM (logger Warn ''[JanusClient] No localAudioSource => enabling now...'')
                 (enableLocalAudio env) s
             else retM () s)
       (tryCatch
          (\<lambda>s. if localAudioSource s then external env None (Push_pcm_data samples sampleRate channels) s
                else retM () s)
          (\<lambda>error. logger Err ''[JanusClient] Error pushing local audio:''))"

definition configurePublisher :: "env \<Rightarrow> string \<Rightarrow> unit M" where
  "configurePublisher env sessionUUID s =
     (if pc s = None \<or> falsy (sessionId s) \<or> falsy (handleId s) then retM () s
      else
        tryCatch
          (thenM (logger Debug ''[JanusClient] createOffer...'')
          (thenM (on_pc env (Create_offer False))
          (thenM (on_pc env Set_local_description)
          (thenM (logger Debug ''[JanusClient] sending configure with JSEP...'')
          (bindM (getsM handleId) (\<lambda>h.
           thenM (sendJanusMessage env h (Configure (Some sessionUUID)) (Offer False))
             (logger Debug ''[JanusClient] waiting for answer...'')))))))
          (\<lambda>error.
             thenM (logger Err ''[JanusClient] Failed to configure publisher:'')
               (throwM error)) s)"

section \<open>ICE recovery of the publisher\<close>

text \<open>
  \<^verbatim>\<open>restartIce\<close> is an \<^verbatim>\<open>async\<close> method whose caller does not await it. A call runs up to its
  first \<^verbatim>\<open>await\<close> and returns a promise; the event loop resumes it later, once per
  \<^verbatim>\<open>await\<close>, and other callbacks may run in between. A suspended call is the \<^verbatim>\<open>await\<close> it
  stopped at, with what the awaited promise settles with.
\<close>

datatype suspended =
    Await_createOffer "js_error + unit"
  | Await_setLocalDescription "js_error + unit"
  | Await_sendJanusMessage "js_error + unit"

text \<open>
  \<^verbatim>\<open>await m\<close> inside such a method: the call \<open>m\<close> is made now, and the method is suspended
  with its outcome.
\<close>

definition suspend :: "(js_error + unit \<Rightarrow> suspended) \<Rightarrow> unit M \<Rightarrow> suspended option M" where
  "suspend stage m s = (case m s of (r, s') \<Rightarrow> (Inr (Some (stage r)), s'))"

definition restartIce_catch :: "js_error \<Rightarrow> suspended option M" where
  "restartIce_catch error =
     thenM (logger Err ''[JanusClient] ICE restart failed:'') (retM None)"

text \<open>
  The call \<^verbatim>\<open>this.restartIce()\<close>, up to \<^verbatim>\<open>await this.pc.createOffer(...)\<close>. The result is the
  suspended call, or \<open>None\<close> when the method has returned.
\<close>

definition restartIce :: "env \<Rightarrow> suspended option M" where
  "restartIce env s =
     (if pc s = None \<or> falsy (handleId s) then
        thenM (logger Warn ''[JanusClient] Cannot restart ICE: no PC or handleId'')
          (retM None) s
      else
        thenM (logger Info ''[JanusClient] Attempting to restart ICE negotiation...'')
          (suspend Await_createOffer (on_pc env (Create_offer True))) s)"

text \<open>
  The event loop resumes a suspended call: a rejected promise goes to the \<^verbatim>\<open>catch\<close> block,
  a fulfilled one to the next statement, up to the next \<^verbatim>\<open>await\<close>. Reading
  \<^verbatim>\<open>this.pc.setLocalDescription\<close> on \<^verbatim>\<open>undefined\<close> throws at once. \<^verbatim>\<open>sendJanusMessage\<close> runs to
  its end when it is called, as everywhere else; its outcome reaches \<^verbatim>\<open>restartIce\<close> at the
  \<^verbatim>\<open>await\<close>.
\<close>

fun restartIce_resume :: "env \<Rightarrow> suspended \<Rightarrow> suspended option M" where
  "restartIce_resume env (Await_createOffer (Inl error)) = restartIce_catch error"
| "restartIce_resume env (Await_createOffer (Inr offer)) =
     (\<lambda>s. case pc s of
             None \<Rightarrow> restartIce_catch (TypeError ''Cannot read properties of undefined'') s
           | Some p \<Rightarrow>
               suspend Await_setLocalDescription
                 (external env (Some p) Set_local_description) s)"
| "restartIce_resume env (Await_setLocalDescription (Inl error)) = restartIce_catch error"
| "restartIce_resume env (Await_setLocalDescription (Inr u)) =
     suspend Await_sendJanusMessage
       (bindM (getsM handleId) (\<lambda>h. sendJanusMessage env h (Configure None) (Offer True)))"
| "restartIce_resume env (Await_sendJanusMessage (Inl error)) = restartIce_catch error"
| "restartIce_resume env (Await_sendJanusMessage (Inr u)) =
     thenM (logger Info ''[JanusClient] ICE restart initiated'') (retM None)"

text \<open>
  The listener that \<^verbatim>\<open>setupPeerEvents\<close> puts on \<^verbatim>\<open>iceconnectionstatechange\<close>. It reads
  the state of the current \<^verbatim>\<open>this.pc\<close>. It does not await \<^verbatim>\<open>this.restartIce()\<close>: when the
  listener returns, that call is suspended, and it is the listener's result here.
\<close>

definition on_iceconnectionstatechange :: "env \<Rightarrow> suspended option M" where
  "on_iceconnectionstatechange env =
     thenM (logger Debug ''[JanusClient] ICE connection state:'')
       (\<lambda>s. if (case pc s of None \<Rightarrow> False
                 | Some p \<Rightarrow> iceConnectionState s p = Disconnected) then
               thenM (logger Warn
                        ''[JanusClient] ICE connection disconnected, attempting restart...'')
                 (restartIce env) s
             else retM None s)"

text \<open>
  The WebRTC library reports that the ICE state of peer connection \<open>p\<close> became \<open>st\<close>: the
  state changes and the listener runs if \<open>p\<close> carries one.
\<close>

definition iceconnectionstatechange :: "env \<Rightarrow> nat \<Rightarrow> ice \<Rightarrow> suspended option M" where
  "iceconnectionstatechange env p st =
     thenM (modifyM (\<lambda>s. s\<lparr>iceConnectionState := (iceConnectionState s)(p := st)\<rparr>))
       (\<lambda>s. if p \<in> peerEvents s then on_iceconnectionstatechange env s else retM None s)"

text \<open>
  The event loop resumes a call \<open>n\<close> times, or until it has returned. A call of
  \<^verbatim>\<open>restartIce\<close> has three \<^verbatim>\<open>await\<close>s, so three times bring it to its end.
\<close>

fun resumed :: "nat \<Rightarrow> env \<Rightarrow> suspended option \<Rightarrow> suspended option M" where
  "resumed 0 env call = retM call"
| "resumed (Suc n) env None = retM None"
| "resumed (Suc n) env (Some call) = bindM (restartIce_resume env call) (resumed n env)"

text \<open>
  The publisher's peer connection \<open>p\<close> reports \<^verbatim>\<open>disconnected\<close> and then \<^verbatim>\<open>connected\<close>. The
  call of \<^verbatim>\<open>restartIce\<close> that the first report leaves suspended is resumed \<open>k\<close> times
  before the second report and to its end after it. (The second report starts no call
  of its own when \<open>p\<close> is the publisher's connection.)
\<close>

definition reconnect :: "nat \<Rightarrow> env \<Rightarrow> nat \<Rightarrow> suspended option M" where
  "reconnect k env p =
     bindM (iceconnectionstatechange env p Disconnected) (\<lambda>call.
     bindM (resumed k env call) (\<lambda>call'.
     thenM (iceconnectionstatechange env p Connected)
       (resumed 3 env call')))"

section \<open>Stopping: \<^verbatim>\<open>stop\<close>\<close>

fun closeSubscribers :: "env \<Rightarrow> (string \<times> subscription) list \<Rightarrow> unit M" where
  "closeSubscribers env [] = retM ()"
| "closeSubscribers env ((userId, sub) # rest) =
     thenM
       (tryCatch
          (thenM (pc_close env (sub_pc sub))
             (logger Debug (''[JanusClient] Closed subscriber connection for '' @ userId)))
          (\<lambda>error. logger Err (''[JanusClient] Error closing subscriber for '' @ userId @ '':'')))
       (closeSubscribers env rest)"

definition stop :: "env \<Rightarrow> unit M" where
  "stop env =
     thenM (logger Info ''[JanusClient] Stopping...'')
    (thenM (modifyM (\<lambda>s. s\<lparr>pollActive := False\<rparr>))
    (thenM (\<lambda>s. closeSubscribers env (subscribers s) s)
    (thenM (modifyM (\<lambda>s. s\<lparr>subscribers := []\<rparr>))
    (thenM
       (\<lambda>s. case pc s of
               None \<Rightarrow> retM () s
             | Some p \<Rightarrow>
                 thenM
                   (tryCatch (pc_close env p)
                      (\<lambda>error. logger Err
                         ''[JanusClient] Error closing main peer connection:''))
                   (modifyM (\<lambda>s. s\<lparr>pc := None\<rparr>)) s)
       (logger Info ''[JanusClient] All WebRTC connections closed'')))))"

section \<open>The long-poll loop: \<^verbatim>\<open>startPolling\<close>\<close>

text \<open>
  The body of the \<^verbatim>\<open>try\<close> block of \<^verbatim>\<open>doPoll\<close>. Its result says whether control
  reaches the statement after the \<^verbatim>\<open>try\<close>: \<open>False\<close> is the \<^verbatim>\<open>return\<close> of the 404 branch.
\<close>

definition doPoll_try :: "env \<Rightarrow> bool M" where
  "doPoll_try env =
     bindM (fetch (polled env) Poll) (\<lambda>resp.
       case resp of
         Ok event \<Rightarrow> thenM (handleJanusEvent event) (retM True)
       | Status c errorText \<Rightarrow>
           thenM (logger Warn ''[JanusClient] poll error =>'')
             (if c = 404 then
                thenM (logger Err ''[JanusClient] Session not found (404), polling stopped'')
               (thenM (modifyM (\<lambda>s. s\<lparr>pollActive := False\<rparr>))
               (thenM (emit (ErrorEvent (Error ''[JanusClient] Session not found (404)'')))
                  (retM False)))
              else retM True)
       | _ \<Rightarrow> throwM (SyntaxError ''Unexpected token''))"

text \<open>\<^verbatim>\<open>setTimeout(doPoll, 500)\<close>.\<close>

definition setTimeout_doPoll :: "nat \<Rightarrow> unit M" where
  "setTimeout_doPoll delay =
     modifyM (\<lambda>s. s\<lparr>pollTimer := Some delay, trace := trace s @ [Schedule_poll delay]\<rparr>)"

definition doPoll :: "env \<Rightarrow> unit M" where
  "doPoll env s =
     (if \<not> pollActive s \<or> falsy (sessionId s) then
        logger Debug ''[JanusClient] Polling stopped'' s
      else
        bindM
          (tryCatch (doPoll_try env)
             (\<lambda>err. thenM (logger Err ''[JanusClient] poll exception =>'') (retM True)))
          (\<lambda>continue. if continue then setTimeout_doPoll 500 else retM ()) s)"

text \<open>
  \<^verbatim>\<open>startPolling\<close> calls \<^verbatim>\<open>doPoll\<close> once without awaiting it. The first request leaves at
  once; its answer is handled later, between the steps of whoever called
  \<^verbatim>\<open>startPolling\<close>. That handling only writes log lines, notifications, \<open>pollActive\<close> and
  the poll timer, none of which the callers read, so here the first iteration runs to
  its end inside \<^verbatim>\<open>startPolling\<close>.
\<close>

definition startPolling :: "env \<Rightarrow> unit M" where
  "startPolling env =
     thenM (logger Debug ''[JanusClient] Starting polling...'') (doPoll env)"

text \<open>The event loop runs the poll timer, if one is set; then \<open>n\<close> such firings in a row.\<close>

definition pollTimerFires :: "env \<Rightarrow> unit M" where
  "pollTimerFires env s =
     (case pollTimer s of
        None \<Rightarrow> retM () s
      | Some delay \<Rightarrow> doPoll env (s\<lparr>pollTimer := None\<rparr>))"

fun pollLoop :: "nat \<Rightarrow> env \<Rightarrow> client \<Rightarrow> client" where
  "pollLoop 0 env s = s"
| "pollLoop (Suc n) env s = pollLoop n env (snd (pollTimerFires env s))"

definition pollFetches :: "client \<Rightarrow> nat" where
  "pollFetches s = length (filter (\<lambda>a. a = Fetch Poll) (trace s))"

section \<open>Subscribing to a speaker: \<^verbatim>\<open>subscribeSpeaker\<close>\<close>

definition is_publishers :: "janus_event \<Rightarrow> bool" where
  "is_publishers e =
     (janus e = ''event'' \<and>
      (case plugindata e of
         None \<Rightarrow> False
       | Some pd \<Rightarrow>
           plugin pd = ''janus.plugin.videoroom'' \<and> videoroom (data pd) = ''event'' \<and>
           (case publishers (data pd) of None \<Rightarrow> False | Some ps \<Rightarrow> 0 < length ps)))"

definition is_attached :: "nat \<Rightarrow> janus_event \<Rightarrow> bool" where
  "is_attached subscriberHandleId e =
     (janus e = ''event'' \<and> sender e = Some subscriberHandleId \<and>
      (case plugindata e of
         None \<Rightarrow> False
       | Some pd \<Rightarrow>
           plugin pd = ''janus.plugin.videoroom'' \<and> videoroom (data pd) = ''attached'') \<and>
      (case jsep e of None \<Rightarrow> False | Some j \<Rightarrow> jsep_type j = ''offer''))"

definition discover_label :: string where
  "discover_label = ''discover feed_id from '' @ [CHR 0x22] @ ''publishers'' @ [CHR 0x22]"

text \<open>
  The handler that \<^verbatim>\<open>subscribeSpeaker\<close> puts on \<^verbatim>\<open>oniceconnectionstatechange\<close> of the
  subscriber's peer connection, and the library's report that runs it.
\<close>

definition subscriber_oniceconnectionstatechange :: "string \<Rightarrow> nat \<Rightarrow> unit M" where
  "subscriber_oniceconnectionstatechange userId subPc =
     thenM (logger Debug (''[JanusClient] Subscriber ICE state for '' @ userId))
       (\<lambda>s. if iceConnectionState s subPc = Failed then
               thenM (logger Warn
                        (''[JanusClient] Subscriber ICE connection failed for '' @ userId))
                 (emit (WarningEvent (Error
                        (''[JanusClient] Subscriber ICE connection failed for '' @ userId)))) s
             else retM () s)"

text \<open>
  The \<^verbatim>\<open>try\<close> block of \<^verbatim>\<open>subscribeSpeaker\<close>. The \<^verbatim>\<open>ontrack\<close> handler, which forwards decoded
  audio frames, runs only when the library reports a track and is not part of it.
\<close>

definition subscribeSpeaker_try :: "env \<Rightarrow> string \<Rightarrow> nat \<Rightarrow> unit M" where
  "subscribeSpeaker_try env userId feedId0 =
     bindM (attachPlugin env) (\<lambda>subscriberHandleId.
     thenM (logger Debug ''[JanusClient] subscriber handle =>'')
    (bindM
       (if feedId0 = 0 then
          bindM (waitForJanusEventWithPredicate is_publishers 8000 discover_label)
            (\<lambda>evtPromise.
          bindM (awaitM env evtPromise) (\<lambda>publishersEvt.
            case plugindata publishersEvt of
              None \<Rightarrow> throwM (TypeError ''Cannot read properties of undefined'')
            | Some pd \<Rightarrow>
                (case publishers (data pd) of
                   None \<Rightarrow> throwM (TypeError ''Cannot read properties of undefined'')
                 | Some list \<Rightarrow>
                     (case find (\<lambda>p. display p = userId \<or>
                                      periscope_user_id p = Some userId) list of
                        None \<Rightarrow>
                          throwM (Error
                            (''[JanusClient] subscribeSpeaker => No publisher found for userId=''
                               @ userId))
                      | Some pub \<Rightarrow>
                          thenM (logger Debug ''[JanusClient] found feedId =>'')
                            (retM (pub_id pub))))))
        else retM feedId0)
       (\<lambda>feedId.
     thenM (emit (SubscribedSpeaker userId feedId))
    (thenM (sendJanusMessage env (Some subscriberHandleId) (Join_subscriber feedId) No_jsep)
    (bindM (waitForJanusEventWithPredicate (is_attached subscriberHandleId) 8000
              ''subscriber attached + offer'') (\<lambda>evtPromise.
     bindM (awaitM env evtPromise) (\<lambda>attachedEvt.
     thenM (logger Debug ''[JanusClient] subscriber => attached with offer'')
    (bindM (new_RTCPeerConnection env) (\<lambda>subPc.
     thenM (external env (Some subPc) Set_remote_description)
    (thenM (external env (Some subPc) Create_answer)
    (thenM (external env (Some subPc) Set_local_description)
    (thenM (sendJanusMessage env (Some subscriberHandleId) Start Answer)
    (thenM (logger Debug (''[JanusClient] subscriber => done (user= '' @ userId @ '' )''))
       (modifyM (\<lambda>s. s\<lparr>subscribers :=
          AList.update userId \<lparr>sub_handleId = subscriberHandleId, sub_pc = subPc\<rparr>
            (subscribers s)\<rparr>)))))))))))))))"

text \<open>
  The method itself. Its entry is recorded with both arguments, so that calls can be
  counted in the trace; the first statement is the debug line.
\<close>

definition subscribeSpeaker_enter :: "string \<Rightarrow> nat \<Rightarrow> unit M" where
  "subscribeSpeaker_enter userId feedId =
     thenM (modifyM (record_action (Called_subscribeSpeaker userId feedId)))
       (logger Debug (''[JanusClient] subscribeSpeaker => userId= '' @ userId))"

definition subscribeSpeaker_catch :: "string \<Rightarrow> js_error \<Rightarrow> unit M" where
  "subscribeSpeaker_catch userId error =
     thenM (logger Err (''[JanusClient] Failed to subscribe to speaker '' @ userId @ '':''))
       (emit (WarningEvent (Error (''[JanusClient] Failed to subscribe to speaker '' @
                                     userId @ '': '' @ toString error))))"

definition subscribeSpeaker :: "env \<Rightarrow> string \<Rightarrow> nat \<Rightarrow> unit M" where
  "subscribeSpeaker env userId feedId =
     thenM (subscribeSpeaker_enter userId feedId)
       (tryCatch (subscribeSpeaker_try env userId feedId) (subscribeSpeaker_catch userId))"

section \<open>The guest path: \<^verbatim>\<open>initializeGuestSpeaker\<close>\<close>

text \<open>
  \<^verbatim>\<open>Promise.all(publishers.map((pub) => this.subscribeSpeaker(pub.display, pub.id)))\<close>:
  the calls start in list order; here each runs to its end before the next starts.
\<close>

fun subscribeAll :: "env \<Rightarrow> publisher list \<Rightarrow> unit M" where
  "subscribeAll env [] = retM ()"
| "subscribeAll env (pub # pubs) =
     thenM (subscribeSpeaker env (display pub) (pub_id pub)) (subscribeAll env pubs)"

text \<open>What the \<^verbatim>\<open>try\<close> block does once \<^verbatim>\<open>await evtPromise\<close> has given the joined event.\<close>

definition initializeGuestSpeaker_joined :: "env \<Rightarrow> string \<Rightarrow> janus_event \<Rightarrow> unit M" where
  "initializeGuestSpeaker_joined env sessionUUID evt =
     (case plugindata evt of
        None \<Rightarrow> throwM (TypeError ''Cannot read properties of undefined'')
      | Some pd \<Rightarrow>
          thenM (modifyM (\<lambda>s. s\<lparr>publisherId := vr_id (data pd)\<rparr>))
         (thenM (logger Debug ''[JanusClient] guest joined => publisherId='')
         (thenM (logger Debug ''[JanusClient] existing publishers =>'')
         (thenM (setupPeerConnection env)
         (thenM (enableLocalAudio env)
         (thenM (configurePublisher env sessionUUID)
         (thenM (subscribeAll env
                   (case publishers (data pd) of None \<Rightarrow> [] | Some ps \<Rightarrow> ps))
            (logger Info ''[JanusClient] Guest speaker negotiation complete''))))))))"

definition initializeGuestSpeaker :: "env \<Rightarrow> string \<Rightarrow> unit M" where
  "initializeGuestSpeaker env sessionUUID =
     thenM (logger Debug ''[JanusClient] initializeGuestSpeaker() called'')
       (tryCatch
          (bindM (createSession env) (\<lambda>n.
           thenM (modifyM (\<lambda>s. s\<lparr>sessionId := Some n\<rparr>))
          (bindM (attachPlugin env) (\<lambda>h.
           thenM (modifyM (\<lambda>s. s\<lparr>handleId := Some h\<rparr>))
          (thenM (modifyM (\<lambda>s. s\<lparr>pollActive := True\<rparr>))
          (thenM (startPolling env)
          (bindM (waitForJanusEventWithPredicate is_joined 10000
                    ''Guest Speaker joined event'') (\<lambda>evtPromise.
           bindM (getsM handleId) (\<lambda>h.
           thenM (sendJanusMessage env h Join_publisher No_jsep)
          (bindM (awaitM env evtPromise)
             (initializeGuestSpeaker_joined env sessionUUID)))))))))))
          (\<lambda>error.
             thenM (logger Err ''[JanusClient] Guest speaker initialization failed:'')
            (thenM (emit (ErrorEvent (Error
                      (''[JanusClient] Guest speaker initialization failed: '' @
                         toString error))))
               (throwM error))))"

section \<open>Notions used in the proofs\<close>

text \<open>
  Running a sequence on a state: the result of the first statement decides whether the
  next one runs. These two functions say the same as \<open>bindM\<close> and \<open>tryCatch\<close>, with the
  result as their argument.
\<close>

fun bind_res :: "(js_error + 'a) \<times> client \<Rightarrow> ('a \<Rightarrow> 'b M) \<Rightarrow> (js_error + 'b) \<times> client" where
  "bind_res (Inl e, s) k = (Inl e, s)"
| "bind_res (Inr x, s) k = k x s"

fun catch_res :: "(js_error + 'a) \<times> client \<Rightarrow> (js_error \<Rightarrow> 'a M) \<Rightarrow> (js_error + 'a) \<times> client" where
  "catch_res (Inl e, s) h = h e s"
| "catch_res (Inr x, s) h = (Inr x, s)"

text \<open>A statement keeps a relation when every run of it relates the state before to the state after.\<close>

definition keeps :: "(client \<Rightarrow> client \<Rightarrow> bool) \<Rightarrow> 'a M \<Rightarrow> bool" where
  "keeps R m \<longleftrightarrow> (\<forall>s. R s (snd (m s)))"

text \<open>The subscriber map and the peer connections are as they were.\<close>

definition undisturbed :: "client \<Rightarrow> client \<Rightarrow> bool" where
  "undisturbed s s' \<longleftrightarrow>
     subscribers s' = subscribers s \<and> openPcs s' = openPcs s \<and> nextPc s' = nextPc s"

text \<open>
  What the \<^verbatim>\<open>try\<close> block of \<^verbatim>\<open>subscribeSpeaker\<close> for participant \<open>A\<close> does once it holds
  the subscriber handle \<open>h\<close>. A run that throws leaves the map as it was; it has created
  no peer connection, or one that is still open. A run that completes has created one
  peer connection, which is open, and has written the entry of \<open>A\<close> with it and with \<open>h\<close>.
\<close>

definition subscribed :: "string \<Rightarrow> nat \<Rightarrow> client \<Rightarrow> js_error + unit \<Rightarrow> client \<Rightarrow> bool" where
  "subscribed A h s r s' \<longleftrightarrow>
     (case r of
        Inl e \<Rightarrow>
          subscribers s' = subscribers s \<and>
          (openPcs s' = openPcs s \<and> nextPc s' = nextPc s \<or>
           openPcs s' = insert (nextPc s) (openPcs s) \<and> nextPc s' = Suc (nextPc s))
      | Inr _ \<Rightarrow>
          subscribers s' =
            AList.update A \<lparr>sub_handleId = h, sub_pc = nextPc s\<rparr> (subscribers s) \<and>
          openPcs s' = insert (nextPc s) (openPcs s) \<and> nextPc s' = Suc (nextPc s))"

definition subscribes :: "string \<Rightarrow> nat \<Rightarrow> unit M \<Rightarrow> bool" where
  "subscribes A h m \<longleftrightarrow> (\<forall>s. subscribed A h s (fst (m s)) (snd (m s)))"

text \<open>
  The peer connections of the subscriber map are told apart: no participant has two
  entries, no two entries share a peer connection, and every peer connection of the map,
  like every open one, was created before (its number is below the next fresh one).
\<close>

definition tracked :: "client \<Rightarrow> bool" where
  "tracked s \<longleftrightarrow>
     distinct (map fst (subscribers s)) \<and>
     distinct (map (sub_pc \<circ> snd) (subscribers s)) \<and>
     (\<forall>sub \<in> snd ` set (subscribers s). sub_pc sub < nextPc s) \<and>
     (\<forall>p \<in> openPcs s. p < nextPc s)"

text \<open>A statement returns when no run of it throws.\<close>

definition returns :: "'a M \<Rightarrow> bool" where
  "returns m \<longleftrightarrow> (\<forall>s. \<exists>x. fst (m s) = Inr x)"

text \<open>
  The calls of \<^verbatim>\<open>subscribeSpeaker\<close> recorded in the trace, with their arguments, and the
  number of waiters created for feed discovery.
\<close>

fun calledWith :: "action \<Rightarrow> (string \<times> nat) list" where
  "calledWith (Called_subscribeSpeaker userId feedId) = [(userId, feedId)]"
| "calledWith _ = []"

definition subscribeCalls :: "client \<Rightarrow> (string \<times> nat) list" where
  "subscribeCalls s = concat (map calledWith (trace s))"

definition discoveries :: "client \<Rightarrow> nat" where
  "discoveries s = length (filter (\<lambda>d. d = discover_label) (map description (waiters s)))"

definition silent :: "client \<Rightarrow> client \<Rightarrow> bool" where
  "silent s s' \<longleftrightarrow> subscribeCalls s' = subscribeCalls s \<and> discoveries s' = discoveries s"

text \<open>
  The ICE-restart offers sent so far (the requests that carry an offer made with
  \<^verbatim>\<open>iceRestart: true\<close>) and the timers started so far.
\<close>

fun is_restart_offer :: "action \<Rightarrow> bool" where
  "is_restart_offer (Fetch (Janus_message h (Configure u) (Offer restart))) = restart"
| "is_restart_offer a = False"

definition restartOffers :: "client \<Rightarrow> nat" where
  "restartOffers s = length (filter is_restart_offer (trace s))"

fun is_timer :: "action \<Rightarrow> bool" where
  "is_timer (Set_timeout i delay) = True"
| "is_timer (Schedule_poll delay) = True"
| "is_timer a = False"

definition timers :: "client \<Rightarrow> nat" where
  "timers s = length (filter is_timer (trace s))"


text \<open>
  The number of times the handler of waiter \<open>i\<close> has called \<^verbatim>\<open>resolve\<close>, and a waiter that
  is still waiting: its promise is pending and its handler is registered once.
\<close>

fun is_resolve :: "nat \<Rightarrow> action \<Rightarrow> bool" where
  "is_resolve i (Resolve j e) = (j = i)"
| "is_resolve i _ = False"

definition resolveCalls :: "nat \<Rightarrow> client \<Rightarrow> nat" where
  "resolveCalls i s = length (filter (is_resolve i) (trace s))"

definition live :: "nat \<Rightarrow> (janus_event \<Rightarrow> bool) \<Rightarrow> client \<Rightarrow> bool" where
  "live i P s \<longleftrightarrow>
     i < length (waiters s) \<and> predicate (waiters s ! i) = P \<and>
     promise (waiters s ! i) = Pending \<and> i \<in> set (janusListeners s) \<and>
     distinct (janusListeners s)"

subsection \<open>Concrete gateways, events and clients\<close>

definition attached_event :: "nat \<Rightarrow> janus_event" where
  "attached_event h =
     \<lparr> janus = ''event'', transaction = None, session_id = None, sender = Some h,
       plugindata = Some \<lparr> plugin = ''janus.plugin.videoroom'',
         data = \<lparr> videoroom = ''attached'', room = None, vr_id = None, ptype = None,
                  publishers = None, reason = None \<rparr> \<rparr>,
       jsep = Some \<lparr> jsep_type = ''offer'', sdp = ''v=0'' \<rparr> \<rparr>"

definition keepalive :: janus_event where
  "keepalive =
     \<lparr> janus = ''keepalive'', transaction = None, session_id = None, sender = None,
       plugindata = None, jsep = None \<rparr>"

text \<open>
  A gateway that accepts every request and hands out handle 200, with a WebRTC library
  that never throws; while a waiter waits, the offer for handle 200 arrives on \<^verbatim>\<open>'janus'\<close>.
\<close>

definition gateway_ok :: env where
  "gateway_ok =
     \<lparr> ctl = (\<lambda>_. Ok (''success'', 200)), msg = (\<lambda>_. Ok ()),
       polled = (\<lambda>_. Ok keepalive), throws = (\<lambda>_. False),
       feed = (\<lambda>_. [attached_event 200]) \<rparr>"

text \<open>A gateway that cannot be reached; nothing arrives on \<^verbatim>\<open>'janus'\<close>.\<close>

definition gateway_down :: env where
  "gateway_down =
     \<lparr> ctl = (\<lambda>_. Unreachable), msg = (\<lambda>_. Unreachable),
       polled = (\<lambda>_. Unreachable), throws = (\<lambda>_. False), feed = (\<lambda>_. []) \<rparr>"

text \<open>
  The publisher alice with feed 55, a client with session 100 and publisher handle 200,
  and one that also follows bob.
\<close>

definition alice :: publisher where
  "alice = \<lparr>pub_id = 55, display = ''alice'', periscope_user_id = None\<rparr>"

definition session_client :: client where
  "session_client = (new_client True)\<lparr>sessionId := Some 100, handleId := Some 200\<rparr>"

definition bob_client :: client where
  "bob_client =
     session_client\<lparr>subscribers := [(''bob'', \<lparr>sub_handleId = 201, sub_pc = 0\<rparr>)],
                    openPcs := {0}, nextPc := 1\<rparr>"

text \<open>
  A client whose publisher peer connection 0 is set up, clients whose poll loop is
  active (with and without a listener on \<^verbatim>\<open>'error'\<close>), and a client with a local audio
  source.
\<close>

definition publisher_client :: client where
  "publisher_client =
     session_client\<lparr>pc := Some 0, openPcs := {0}, nextPc := 1, peerEvents := {0}\<rparr>"

definition polling_client :: "bool \<Rightarrow> client" where
  "polling_client listening =
     (new_client listening)\<lparr>sessionId := Some 100, handleId := Some 200, pollActive := True\<rparr>"

definition audio_client :: client where
  "audio_client = publisher_client\<lparr>localAudioSource := True\<rparr>"

text \<open>
  A gateway that answers every poll with the status \<open>c\<close>, one whose polls deliver the
  joined event while nobody emits on \<^verbatim>\<open>'janus'\<close>, and a library whose every call throws.
\<close>

definition gateway_status :: "nat \<Rightarrow> env" where
  "gateway_status c = gateway_down\<lparr>polled := (\<lambda>_. Status c ''gone'')\<rparr>"

definition gateway_joined :: env where
  "gateway_joined = gateway_ok\<lparr>polled := (\<lambda>_. Ok (joined_event 7 [])), feed := (\<lambda>_. [])\<rparr>"

definition library_failing :: env where
  "library_failing = gateway_ok\<lparr>throws := (\<lambda>_. True)\<rparr>"

text \<open>The client \<open>session_client\<close> after it has subscribed to alice at gateway \<open>gateway_ok\<close>.\<close>

definition alice_client :: client where
  "alice_client =
     \<lparr> sessionId = Some 100, handleId = Some 200, publisherId = None, pc = None,
       localAudioSource = False, pollActive = False,
       iceConnectionRetries = 0, maxIceRetries = 3,
       subscribers = [(''alice'', \<lparr>sub_handleId = 200, sub_pc = 0\<rparr>)],
       janusListeners = [], errorListener = True,
       waiters = [\<lparr> predicate = is_attached 200,
                    description = ''subscriber attached + offer'', timer = False,
                    promise = Fulfilled (attached_event 200) \<rparr>],
       openPcs = {0}, nextPc = 1, iceConnectionState = (\<lambda>_. New), peerEvents = {},
       pollTimer = None, calls = 7,
       trace =
         [Called_subscribeSpeaker ''alice'' 55,
          Log Debug ''[JanusClient] subscribeSpeaker => userId= alice'',
          Fetch Attach_plugin,
          Log Debug ''[JanusClient] Plugin attached, handle ID:'',
          Log Debug ''[JanusClient] subscriber handle =>'',
          Emit (SubscribedSpeaker ''alice'' 55),
          Fetch (Janus_message (Some 200) (Join_subscriber 55) No_jsep),
          Set_timeout 0 8000, On_janus 0, Clear_timeout 0, Remove_listener 0,
          Resolve 0 (attached_event 200),
          Log Debug ''[JanusClient] subscriber => attached with offer'',
          External None New_pc,
          External (Some 0) Set_remote_description,
          External (Some 0) Create_answer,
          External (Some 0) Set_local_description,
          Fetch (Janus_message (Some 200) Start Answer),
          Log Debug ''[JanusClient] subscriber => done (user= alice )''] \<rparr>"

text \<open>
  The same client after it has subscribed to alice a second time at the same gateway, and
  the gateway when it hands out handle 201.
\<close>

definition alice_again_client :: client where
  "alice_again_client =
     alice_client
       \<lparr> subscribers := [(''alice'', \<lparr>sub_handleId = 200, sub_pc = 1\<rparr>)],
         waiters := waiters alice_client @
           [\<lparr> predicate = is_attached 200,
              description = ''subscriber attached + offer'', timer = False,
              promise = Fulfilled (attached_event 200) \<rparr>],
         openPcs := {0, 1}, nextPc := 2, calls := 14,
         trace := trace alice_client @
           [Called_subscribeSpeaker ''alice'' 55,
            Log Debug ''[JanusClient] subscribeSpeaker => userId= alice'',
            Fetch Attach_plugin,
            Log Debug ''[JanusClient] Plugin attached, handle ID:'',
            Log Debug ''[JanusClient] subscriber handle =>'',
            Emit (SubscribedSpeaker ''alice'' 55),
            Fetch (Janus_message (Some 200) (Join_subscriber 55) No_jsep),
            Set_timeout 1 8000, On_janus 1, Clear_timeout 1, Remove_listener 1,
            Resolve 1 (attached_event 200),
            Log Debug ''[JanusClient] subscriber => attached with offer'',
            External None New_pc,
            External (Some 1) Set_remote_description,
            External (Some 1) Create_answer,
            External (Some 1) Set_local_description,
            Fetch (Janus_message (Some 200) Start Answer),
            Log Debug ''[JanusClient] subscriber => done (user= alice )''] \<rparr>"

definition gateway_again :: env where
  "gateway_again =
     gateway_ok\<lparr>ctl := (\<lambda>_. Ok (''success'', 201)), feed := (\<lambda>_. [attached_event 201])\<rparr>"

text \<open>
  A WebRTC library whose fourth call throws, which in a first subscription is
  \<^verbatim>\<open>setRemoteDescription\<close>; and a gateway whose every poll delivers the joined event that
  lists alice, while nobody emits on \<^verbatim>\<open>'janus'\<close>.
\<close>

definition library_rejects_offer :: env where
  "library_rejects_offer = gateway_ok\<lparr>throws := (\<lambda>n. n = 3)\<rparr>"

definition gateway_guest :: env where
  "gateway_guest =
     gateway_ok\<lparr>polled := (\<lambda>_. Ok (joined_event 7 [alice])), feed := (\<lambda>_. [])\<rparr>"

section \<open>Lemmas\<close>

subsection \<open>Running a sequence\<close>

lemma bindM_res: "bindM m k s = bind_res (m s) k"
  by (cases "m s"; cases "fst (m s)") (auto simp: bindM_def)

lemma thenM_res: "thenM m k s = bind_res (m s) (\<lambda>_. k)"
  by (simp add: thenM_def bindM_res)

lemma tryCatch_res: "tryCatch m h s = catch_res (m s) h"
  by (cases "m s"; cases "fst (m s)") (auto simp: tryCatch_def)

lemma bind_res_cong: "r = r' \<Longrightarrow> bind_res r k = bind_res r' k"
  by simp

lemma catch_res_cong: "r = r' \<Longrightarrow> catch_res r k = catch_res r' k"
  by simp

lemma bindM_cong: "s = s' \<Longrightarrow> bindM m k s = bindM m k s'" by simp
lemma thenM_cong: "s = s' \<Longrightarrow> thenM m k s = thenM m k s'" by simp
lemma tryCatch_cong: "s = s' \<Longrightarrow> tryCatch m k s = tryCatch m k s'" by simp

lemmas run = bindM_res thenM_res tryCatch_res retM_def throwM_def modifyM_def getsM_def
  logger_def record_action_def emit_def fetch_def external_def Let_def falsy_def

lemmas run_cong = bind_res_cong catch_res_cong bindM_cong thenM_cong tryCatch_cong

lemmas waiter_run = awaitM_def waitForJanusEventWithPredicate_def emitJanus_def
  eventHandler_def timeoutFires_def settle_def

lemmas subscribe_run = subscribeSpeaker_def subscribeSpeaker_enter_def subscribeSpeaker_catch_def
  subscribeSpeaker_try_def attachPlugin_def sendJanusMessage_def new_RTCPeerConnection_def
  is_attached_def attached_event_def


subsection \<open>Relations that statements keep\<close>

lemmas monad_defs = retM_def throwM_def bindM_def thenM_def tryCatch_def modifyM_def
  getsM_def logger_def record_action_def emit_def

lemma keepsD: "keeps R m \<Longrightarrow> R s (snd (m s))"
  by (simp add: keeps_def)

lemma keeps_retM: "reflp R \<Longrightarrow> keeps R (retM x)"
  by (simp add: keeps_def retM_def reflpD)

lemma keeps_throwM: "reflp R \<Longrightarrow> keeps R (throwM e)"
  by (simp add: keeps_def throwM_def reflpD)

lemma keeps_getsM: "reflp R \<Longrightarrow> keeps R (getsM f)"
  by (simp add: keeps_def getsM_def reflpD)

lemma keeps_bindM:
  assumes "transp R" and "reflp R" and "keeps R m" and "\<And>x. keeps R (k x)"
  shows "keeps R (bindM m k)"
  unfolding keeps_def
proof
  fix s
  show "R s (snd (bindM m k s))"
  proof (cases "m s")
    case (Pair r s')
    have 1: "R s s'" using keepsD [OF assms(3), of s] Pair by simp
    show ?thesis
    proof (cases r)
      case (Inl e)
      then show ?thesis using Pair 1 by (simp add: bindM_def)
    next
      case (Inr x)
      have "R s' (snd (k x s'))" using keepsD [OF assms(4)] .
      then show ?thesis using Pair Inr 1 assms(1) by (auto simp: bindM_def dest: transpD)
    qed
  qed
qed

lemma keeps_thenM:
  "transp R \<Longrightarrow> reflp R \<Longrightarrow> keeps R m \<Longrightarrow> keeps R k \<Longrightarrow> keeps R (thenM m k)"
  by (simp add: thenM_def keeps_bindM)

lemma keeps_tryCatch:
  assumes "transp R" and "reflp R" and "keeps R m" and "\<And>e. keeps R (h e)"
  shows "keeps R (tryCatch m h)"
  unfolding keeps_def
proof
  fix s
  show "R s (snd (tryCatch m h s))"
  proof (cases "m s")
    case (Pair r s')
    have 1: "R s s'" using keepsD [OF assms(3), of s] Pair by simp
    show ?thesis
    proof (cases r)
      case (Inr x)
      then show ?thesis using Pair 1 by (simp add: tryCatch_def)
    next
      case (Inl e)
      have "R s' (snd (h e s'))" using keepsD [OF assms(4)] .
      then show ?thesis using Pair Inl 1 assms(1) by (auto simp: tryCatch_def dest: transpD)
    qed
  qed
qed

lemma keeps_state: "(\<And>s0. keeps R (m s0)) \<Longrightarrow> keeps R (\<lambda>s. m s s)"
  by (simp add: keeps_def)

lemma reflp_undisturbed: "reflp undisturbed"
  by (simp add: reflp_def undisturbed_def)

lemma transp_undisturbed: "transp undisturbed"
  by (auto simp: transp_def undisturbed_def)

named_theorems und

lemmas und_retM [und] = keeps_retM [OF reflp_undisturbed]
lemmas und_throwM [und] = keeps_throwM [OF reflp_undisturbed]
lemmas und_getsM [und] = keeps_getsM [OF reflp_undisturbed]
lemmas und_bindM [und] = keeps_bindM [OF transp_undisturbed reflp_undisturbed]
lemmas und_thenM [und] = keeps_thenM [OF transp_undisturbed reflp_undisturbed]
lemmas und_tryCatch [und] = keeps_tryCatch [OF transp_undisturbed reflp_undisturbed]

lemma und_logger [und]: "keeps undisturbed (logger l m)"
  by (simp add: keeps_def undisturbed_def monad_defs)

lemma und_emit [und]: "keeps undisturbed (emit ev)"
  by (simp add: keeps_def undisturbed_def monad_defs split: emitted.splits)

lemma und_fetch [und]: "keeps undisturbed (fetch answer req)"
  by (simp add: keeps_def undisturbed_def fetch_def Let_def split: response.splits)

lemma und_external [und]: "keeps undisturbed (external env p op)"
  by (simp add: keeps_def undisturbed_def external_def Let_def)

lemma und_register [und]: "keeps undisturbed (waitForJanusEventWithPredicate p t d)"
  by (simp add: keeps_def undisturbed_def waitForJanusEventWithPredicate_def Let_def)

lemma und_eventHandler: "undisturbed s (eventHandler i e s)"
  by (simp add: undisturbed_def eventHandler_def)

lemma und_handlers: "undisturbed s (fold (\<lambda>i. eventHandler i e) js s)"
proof (induction js arbitrary: s)
  case Nil
  show ?case by (simp add: undisturbed_def)
next
  case (Cons j js)
  have "undisturbed s (eventHandler j e s)" by (rule und_eventHandler)
  moreover have "undisturbed (eventHandler j e s) (fold (\<lambda>i. eventHandler i e) js (eventHandler j e s))"
    by (rule Cons.IH)
  ultimately show ?case using transp_undisturbed by (auto dest: transpD)
qed

lemma und_emitJanus: "undisturbed s (emitJanus e s)"
  by (simp add: emitJanus_def und_handlers)

lemma und_feed: "undisturbed s (fold emitJanus es s)"
proof (induction es arbitrary: s)
  case Nil
  show ?case by (simp add: undisturbed_def)
next
  case (Cons e es)
  have "undisturbed s (emitJanus e s)" by (rule und_emitJanus)
  moreover have "undisturbed (emitJanus e s) (fold emitJanus es (emitJanus e s))"
    by (rule Cons.IH)
  ultimately show ?case using transp_undisturbed by (auto dest: transpD)
qed

lemma und_timeoutFires: "undisturbed s (timeoutFires i s)"
  by (simp add: undisturbed_def timeoutFires_def)

lemma und_awaitM [und]: "keeps undisturbed (awaitM env i)"
proof -
  have "undisturbed s (timeoutFires i (fold emitJanus (feed env i) s))" for s
    using und_feed [of s "feed env i"] und_timeoutFires [of "fold emitJanus (feed env i) s" i]
      transp_undisturbed by (auto dest: transpD)
  then show ?thesis
    by (simp add: keeps_def awaitM_def Let_def split: promise.splits)
qed


lemma keeps_if_state: "keeps R m \<Longrightarrow> keeps R n \<Longrightarrow> keeps R (\<lambda>s. if c s then m s else n s)"
  by (simp add: keeps_def)

lemma keeps_if: "keeps R m \<Longrightarrow> keeps R n \<Longrightarrow> keeps R (if c then m else n)"
  by simp

lemma keeps_case_response:
  "keeps R a \<Longrightarrow> (\<And>c t. keeps R (b c t)) \<Longrightarrow> keeps R d \<Longrightarrow> (\<And>x. keeps R (f x)) \<Longrightarrow>
   keeps R (case_response a b d f resp)"
  by (cases resp) auto

lemma keeps_case_prod: "(\<And>x y. keeps R (f x y)) \<Longrightarrow> keeps R (case_prod f p)"
  by (cases p) auto

lemma keeps_case_option: "keeps R a \<Longrightarrow> (\<And>x. keeps R (f x)) \<Longrightarrow> keeps R (case_option a f v)"
  by (cases v) auto

lemma keeps_case_option_state:
  "keeps R a \<Longrightarrow> (\<And>x. keeps R (f x)) \<Longrightarrow> keeps R (\<lambda>s. case_option (a s) (\<lambda>x. f x s) (v s))"
  by (simp add: keeps_def split: option.splits)

lemmas und_struct [und] = keeps_if_state [of undisturbed] keeps_if [of undisturbed]
  keeps_case_response [of undisturbed] keeps_case_prod [of undisturbed]
  keeps_case_option [of undisturbed]

lemma und_attachPlugin [und]: "keeps undisturbed (attachPlugin env)"
  unfolding attachPlugin_def [abs_def] by (intro und)

lemma und_sendJanusMessage [und]: "keeps undisturbed (sendJanusMessage env h b j)"
  unfolding sendJanusMessage_def [abs_def] by (intro und)

lemma und_modify_trace [und]: "keeps undisturbed (modifyM (record_action a))"
  by (simp add: keeps_def undisturbed_def monad_defs)


lemma subscribes_bindM:
  assumes "keeps undisturbed m" and "\<And>x. subscribes A h (k x)"
  shows "subscribes A h (bindM m k)"
  unfolding subscribes_def
proof
  fix s
  obtain r s1 where ms: "m s = (r, s1)" by (cases "m s")
  have u: "undisturbed s s1" using keepsD [OF assms(1), of s] ms by simp
  show "subscribed A h s (fst (bindM m k s)) (snd (bindM m k s))"
  proof (cases r)
    case (Inl e)
    then show ?thesis using ms u by (simp add: bindM_def subscribed_def undisturbed_def)
  next
    case (Inr x)
    have "subscribed A h s1 (fst (k x s1)) (snd (k x s1))"
      using assms(2) [of x] by (simp add: subscribes_def)
    then show ?thesis using ms Inr u
      by (auto simp: bindM_def subscribed_def undisturbed_def split: sum.splits)
  qed
qed

lemma subscribes_thenM:
  "keeps undisturbed m \<Longrightarrow> subscribes A h k \<Longrightarrow> subscribes A h (thenM m k)"
  by (simp add: thenM_def subscribes_bindM)

lemma subscribes_tail:
  "subscribes A h
     (bindM (new_RTCPeerConnection env) (\<lambda>subPc.
        thenM (external env (Some subPc) Set_remote_description)
       (thenM (external env (Some subPc) Create_answer)
       (thenM (external env (Some subPc) Set_local_description)
       (thenM (sendJanusMessage env (Some h) Start Answer)
       (thenM (logger Debug l)
          (modifyM (\<lambda>s. s\<lparr>subscribers :=
             AList.update A \<lparr>sub_handleId = h, sub_pc = subPc\<rparr> (subscribers s)\<rparr>))))))))"
  (is "subscribes A h (bindM _ ?tail)")
  unfolding subscribes_def
proof
  fix s
  let ?m = "bindM (new_RTCPeerConnection env) ?tail"
  show "subscribed A h s (fst (?m s)) (snd (?m s))"
  proof (cases "throws env (calls s)")
    case True
    then show ?thesis
      by (simp add: new_RTCPeerConnection_def external_def thenM_def bindM_def Let_def subscribed_def)
  next
    case False
    define s1 where "s1 = s\<lparr>calls := Suc (calls s), trace := trace s @ [External None New_pc],
      openPcs := insert (nextPc s) (openPcs s), nextPc := Suc (nextPc s)\<rparr>"
    have n: "new_RTCPeerConnection env s = (Inr (nextPc s), s1)"
      using False by (simp add: new_RTCPeerConnection_def external_def thenM_def bindM_def Let_def s1_def)
    define pre where "pre = thenM (external env (Some (nextPc s)) Set_remote_description)
       (thenM (external env (Some (nextPc s)) Create_answer)
       (thenM (external env (Some (nextPc s)) Set_local_description)
       (thenM (sendJanusMessage env (Some h) Start Answer)
          (logger Debug l))))"
    have k: "keeps undisturbed pre" unfolding pre_def by (intro und)
    obtain r s2 where p: "pre s1 = (r, s2)" by (cases "pre s1")
    have u: "undisturbed s1 s2" using keepsD [OF k, of s1] p by simp
    have t: "?tail (nextPc s) s1 =
      (case r of Inl e \<Rightarrow> (Inl e, s2)
       | Inr _ \<Rightarrow> (Inr (), s2\<lparr>subscribers :=
             AList.update A \<lparr>sub_handleId = h, sub_pc = nextPc s\<rparr> (subscribers s2)\<rparr>))"
      using p by (auto simp: pre_def thenM_def bindM_def modifyM_def split: sum.splits prod.splits)
    have "?m s = ?tail (nextPc s) s1" using n by (simp add: bindM_def)
    then show ?thesis
      using t u by (auto simp: subscribed_def undisturbed_def s1_def split: sum.splits)
  qed
qed

lemma attachPlugin_handle:
  "attachPlugin env s = (Inr h, s') \<Longrightarrow> ctl env (calls s) = Ok (''success'', h)"
  by (auto simp: attachPlugin_def fetch_def monad_defs Let_def
      split: if_splits response.splits prod.splits sum.splits)

lemma subscribes_attach:
  assumes "\<And>h. subscribes A h (k h)"
  shows "\<exists>h. subscribed A h s (fst (bindM (attachPlugin env) k s))
                (snd (bindM (attachPlugin env) k s)) \<and>
             (fst (bindM (attachPlugin env) k s) = Inr () \<longrightarrow>
                ctl env (calls s) = Ok (''success'', h))"
proof -
  obtain r s1 where a: "attachPlugin env s = (r, s1)" by (cases "attachPlugin env s")
  have u: "undisturbed s s1" using keepsD [OF und_attachPlugin [of env], of s] a by simp
  show ?thesis
  proof (cases r)
    case (Inl e)
    then show ?thesis using a u by (simp add: bindM_def subscribed_def undisturbed_def)
  next
    case (Inr h)
    have "subscribed A h s1 (fst (k h s1)) (snd (k h s1))"
      using assms [of h] by (simp add: subscribes_def)
    then have "subscribed A h s (fst (k h s1)) (snd (k h s1))"
      using u by (auto simp: subscribed_def undisturbed_def split: sum.splits)
    moreover have "ctl env (calls s) = Ok (''success'', h)"
      using a Inr by (auto dest: attachPlugin_handle)
    ultimately show ?thesis using a Inr by (auto simp: bindM_def)
  qed
qed

lemma subscribes_try:
  "\<exists>h. subscribed A h s (fst (subscribeSpeaker_try env A feedId s))
          (snd (subscribeSpeaker_try env A feedId s)) \<and>
       (fst (subscribeSpeaker_try env A feedId s) = Inr () \<longrightarrow>
          ctl env (calls s) = Ok (''success'', h))"
  unfolding subscribeSpeaker_try_def
  by (rule subscribes_attach) (intro subscribes_bindM subscribes_thenM subscribes_tail und)

lemma never_throws_catch: "fst (subscribeSpeaker_catch A e s) = Inr ()"
  by (simp add: subscribeSpeaker_catch_def monad_defs)

subsection \<open>The outcome of \<^verbatim>\<open>subscribeSpeaker\<close>\<close>

lemma subscribeSpeaker_outcome:
  "\<exists>r s1 h. subscribeSpeaker_try env A feedId (snd (subscribeSpeaker_enter A feedId s)) = (r, s1) \<and>
     subscribed A h s r s1 \<and> (r = Inr () \<longrightarrow> ctl env (calls s) = Ok (''success'', h)) \<and>
     subscribeSpeaker env A feedId s =
       (case r of
          Inl e \<Rightarrow> (Inr (), s1\<lparr>trace := trace s1 @
            [Log Err (''[JanusClient] Failed to subscribe to speaker '' @ A @ '':''),
             Emit (WarningEvent (Error (''[JanusClient] Failed to subscribe to speaker '' @
                                          A @ '': '' @ toString e)))]\<rparr>)
        | Inr x \<Rightarrow> (Inr (), s1))"
proof -
  define s0 where "s0 = snd (subscribeSpeaker_enter A feedId s)"
  have e0: "subscribeSpeaker_enter A feedId s = (Inr (), s0)"
    and same: "subscribers s0 = subscribers s" "openPcs s0 = openPcs s" "nextPc s0 = nextPc s"
      "calls s0 = calls s"
    by (simp_all add: s0_def subscribeSpeaker_enter_def monad_defs)
  obtain r s1 where b: "subscribeSpeaker_try env A feedId s0 = (r, s1)"
    by (cases "subscribeSpeaker_try env A feedId s0")
  obtain h where "subscribed A h s0 r s1"
    and hd: "r = Inr () \<longrightarrow> ctl env (calls s) = Ok (''success'', h)"
    using subscribes_try [of A s0 env feedId] b same(4) by auto
  then have sd: "subscribed A h s r s1"
    using same by (auto simp: subscribed_def split: sum.splits)
  have "subscribeSpeaker env A feedId s =
     (case r of Inl e \<Rightarrow> subscribeSpeaker_catch A e s1 | Inr x \<Rightarrow> (Inr x, s1))"
    using e0 b by (simp add: subscribeSpeaker_def thenM_def bindM_def tryCatch_def)
  then have "subscribeSpeaker env A feedId s =
       (case r of
          Inl e \<Rightarrow> (Inr (), s1\<lparr>trace := trace s1 @
            [Log Err (''[JanusClient] Failed to subscribe to speaker '' @ A @ '':''),
             Emit (WarningEvent (Error (''[JanusClient] Failed to subscribe to speaker '' @
                                          A @ '': '' @ toString e)))]\<rparr>)
        | Inr x \<Rightarrow> (Inr (), s1))"
    by (simp add: subscribeSpeaker_catch_def monad_defs split: sum.splits)
  then show ?thesis using b sd hd by (auto simp: s0_def)
qed

subsection \<open>Entries of an updated map\<close>

lemma set_update_distinct:
  "distinct (map fst al) \<Longrightarrow>
   set (AList.update k v al) = insert (k, v) {e \<in> set al. fst e \<noteq> k}"
  by (induction al) (auto simp: rev_image_eqI)

lemma tracked_subscribed:
  assumes "tracked s" and "subscribed A h s r s'"
  shows "tracked s'"
proof (cases r)
  case (Inl e)
  then show ?thesis using assms by (auto simp: tracked_def subscribed_def less_Suc_eq)
next
  case (Inr u)
  let ?new = "\<lparr>sub_handleId = h, sub_pc = nextPc s\<rparr>"
  have d: "distinct (map fst (subscribers s))" using assms(1) by (simp add: tracked_def)
  have sub: "subscribers s' = AList.update A ?new (subscribers s)"
    and op: "openPcs s' = insert (nextPc s) (openPcs s)" and nx: "nextPc s' = Suc (nextPc s)"
    using assms(2) Inr by (simp_all add: subscribed_def)
  have st: "set (subscribers s') = insert (A, ?new) {e \<in> set (subscribers s). fst e \<noteq> A}"
    unfolding sub by (rule set_update_distinct [OF d])
  have keys: "distinct (map fst (subscribers s'))"
    unfolding sub by (rule distinct_update [OF d])
  have len: "distinct (subscribers s')" using keys by (simp add: distinct_map)
  have inj: "inj_on (sub_pc \<circ> snd) (set (subscribers s))"
    using assms(1) by (simp add: tracked_def distinct_map)
  have below: "\<forall>e \<in> set (subscribers s). sub_pc (snd e) < nextPc s"
    using assms(1) by (auto simp: tracked_def)
  have "inj_on (sub_pc \<circ> snd) (set (subscribers s'))"
    unfolding st using inj below by (auto simp: inj_on_def)
  then have pcs: "distinct (map (sub_pc \<circ> snd) (subscribers s'))"
    using len by (simp add: distinct_map)
  have "\<forall>sub \<in> snd ` set (subscribers s'). sub_pc sub < nextPc s'"
    unfolding st nx using below by (auto simp: less_Suc_eq)
  moreover have "\<forall>p \<in> openPcs s'. p < nextPc s'"
    unfolding op nx using assms(1) by (auto simp: tracked_def less_Suc_eq)
  ultimately show ?thesis using keys pcs by (simp add: tracked_def)
qed

lemma prior_dropped:
  assumes "tracked s" and "map_of (subscribers s) A = Some old"
    and "subscribers s' = AList.update A \<lparr>sub_handleId = h, sub_pc = nextPc s\<rparr> (subscribers s)"
  shows "sub_pc old \<notin> sub_pc ` snd ` set (subscribers s')"
proof -
  have d: "distinct (map fst (subscribers s))" using assms(1) by (simp add: tracked_def)
  have mem: "(A, old) \<in> set (subscribers s)" using assms(2) by (rule map_of_SomeD)
  have inj: "inj_on (sub_pc \<circ> snd) (set (subscribers s))"
    using assms(1) by (simp add: tracked_def distinct_map)
  have below: "sub_pc old < nextPc s" using assms(1) mem by (force simp: tracked_def)
  have st: "set (subscribers s') =
      insert (A, \<lparr>sub_handleId = h, sub_pc = nextPc s\<rparr>) {e \<in> set (subscribers s). fst e \<noteq> A}"
    unfolding assms(3) by (rule set_update_distinct [OF d])
  show ?thesis
  proof
    assume "sub_pc old \<in> sub_pc ` snd ` set (subscribers s')"
    then obtain e where e: "e \<in> set (subscribers s')" and eq: "sub_pc (snd e) = sub_pc old"
      by force
    from e have "e = (A, \<lparr>sub_handleId = h, sub_pc = nextPc s\<rparr>) \<or>
        (e \<in> set (subscribers s) \<and> fst e \<noteq> A)" unfolding st by auto
    then show False
    proof
      assume "e = (A, \<lparr>sub_handleId = h, sub_pc = nextPc s\<rparr>)"
      then show False using eq below by simp
    next
      assume o: "e \<in> set (subscribers s) \<and> fst e \<noteq> A"
      then have "e = (A, old)" using inj mem eq by (auto simp: inj_on_def)
      then show False using o by simp
    qed
  qed
qed

lemma tracked_new_client: "tracked (new_client listening)"
  by (simp add: tracked_def new_client_def)


subsection \<open>Two subscriptions to alice\<close>

lemma alice_once:
  "subscribeSpeaker gateway_ok ''alice'' 55 session_client = (Inr (), alice_client)"
  by (simp add: run waiter_run subscribe_run gateway_ok_def session_client_def new_client_def
      alice_client_def cong: run_cong)

lemma alice_twice:
  "subscribeSpeaker gateway_ok ''alice'' 55 alice_client = (Inr (), alice_again_client)"
  by (simp add: run waiter_run subscribe_run gateway_ok_def alice_client_def
      alice_again_client_def insert_commute cong: run_cong)

subsection \<open>Statements that never throw\<close>

named_theorems ret

lemma returnsD: "returns m \<Longrightarrow> \<exists>x. fst (m s) = Inr x"
  by (simp add: returns_def)

lemma returns_unit: "returns m \<Longrightarrow> fst (m s) = Inr ()"
  using returnsD [of m s] by auto

lemma returns_retM [ret]: "returns (retM x)"
  by (simp add: returns_def retM_def)

lemma returns_getsM [ret]: "returns (getsM f)"
  by (simp add: returns_def getsM_def)

lemma returns_modifyM [ret]: "returns (modifyM f)"
  by (simp add: returns_def modifyM_def)

lemma returns_logger [ret]: "returns (logger l m)"
  by (simp add: returns_def logger_def modifyM_def)

lemma returns_warning [ret]: "returns (emit (WarningEvent e))"
  by (simp add: returns_def emit_def)

lemma returns_bindM [ret]: "returns m \<Longrightarrow> (\<And>x. returns (k x)) \<Longrightarrow> returns (bindM m k)"
  unfolding returns_def
proof
  fix s
  assume m: "\<forall>s. \<exists>x. fst (m s) = Inr x" and k: "\<And>x. \<forall>s. \<exists>y. fst (k x s) = Inr y"
  obtain x where "fst (m s) = Inr x" using m by blast
  then have "bindM m k s = k x (snd (m s))" by (cases "m s") (simp add: bindM_def)
  then show "\<exists>y. fst (bindM m k s) = Inr y" using k by simp
qed

lemma returns_thenM [ret]: "returns m \<Longrightarrow> returns k \<Longrightarrow> returns (thenM m k)"
  by (simp add: thenM_def returns_bindM)

lemma returns_tryCatch [ret]: "(\<And>e. returns (h e)) \<Longrightarrow> returns (tryCatch m h)"
  unfolding returns_def
proof
  fix s
  assume h: "\<And>e. \<forall>s. \<exists>x. fst (h e s) = Inr x"
  show "\<exists>x. fst (tryCatch m h s) = Inr x"
  proof (cases "m s")
    case (Pair r s')
    then show ?thesis using h by (cases r) (simp_all add: tryCatch_def)
  qed
qed

lemma returns_if_state [ret]:
  "returns m \<Longrightarrow> returns n \<Longrightarrow> returns (\<lambda>s. if c s then m s else n s)"
  by (simp add: returns_def)

lemma returns_if [ret]: "returns m \<Longrightarrow> returns n \<Longrightarrow> returns (if c then m else n)"
  by simp

lemma returns_enableLocalAudio [ret]: "returns (enableLocalAudio env)"
  unfolding enableLocalAudio_def [abs_def] by (intro ret)

lemma returns_pushLocalAudio [ret]: "returns (pushLocalAudio env samples sampleRate channels)"
  unfolding pushLocalAudio_def by (intro ret)

lemma returns_suspend [ret]: "returns (suspend stage m)"
  by (simp add: returns_def suspend_def split: prod.splits)

lemma returns_restartIce_catch [ret]: "returns (restartIce_catch e)"
  unfolding restartIce_catch_def by (intro ret)

lemma returns_restartIce [ret]: "returns (restartIce env)"
  unfolding restartIce_def [abs_def] by (intro ret)

lemma returns_on_ice [ret]: "returns (on_iceconnectionstatechange env)"
  unfolding on_iceconnectionstatechange_def by (intro ret)

lemma returns_ice [ret]: "returns (iceconnectionstatechange env p st)"
  unfolding iceconnectionstatechange_def by (intro ret)

lemma returns_closeSubscribers [ret]: "returns (closeSubscribers env subs)"
  by (induction subs) (auto intro!: ret)

lemma returns_case_option_state [ret]:
  "returns a \<Longrightarrow> (\<And>x. returns (f x)) \<Longrightarrow>
   returns (\<lambda>s. case v s of None \<Rightarrow> a s | Some x \<Rightarrow> f x s)"
  by (simp add: returns_def split: option.splits)

lemma returns_state: "(\<And>s0. returns (m s0)) \<Longrightarrow> returns (\<lambda>s. m s s)"
  by (simp add: returns_def)

lemma returns_stop [ret]: "returns (stop env)"
  unfolding stop_def
  by (intro ret returns_state [of "\<lambda>s0. closeSubscribers env (subscribers s0)"])

lemma returns_doPoll [ret]: "returns (doPoll env)"
  unfolding doPoll_def [abs_def] setTimeout_doPoll_def by (intro ret)

lemma returns_subscribeSpeaker [ret]: "returns (subscribeSpeaker env A feedId)"
  unfolding subscribeSpeaker_def subscribeSpeaker_enter_def subscribeSpeaker_catch_def
  by (intro ret)

subsection \<open>Stopping\<close>

lemma thenM_apply: "m s = (Inr x, s') \<Longrightarrow> thenM m k s = k s'"
  by (simp add: thenM_def bindM_def)

lemma bindM_apply: "m s = (Inr x, s') \<Longrightarrow> bindM m k s = k x s'"
  by (simp add: bindM_def)

lemma returns_run: "returns m \<Longrightarrow> m s = (Inr (), snd (m s))"
  using returns_unit [of m s] by (cases "m s") simp

lemma close_one:
  "tryCatch (thenM (pc_close env p) (logger Debug a)) (\<lambda>error. logger Err b) s =
     (Inr (),
      if throws env (calls s) then
        s\<lparr>calls := Suc (calls s), trace := trace s @ [External (Some p) Close, Log Err b]\<rparr>
      else
        s\<lparr>calls := Suc (calls s), trace := trace s @ [External (Some p) Close, Log Debug a],
          openPcs := openPcs s - {p}, iceConnectionState := (iceConnectionState s)(p := Closed)\<rparr>)"
  by (simp add: pc_close_def external_def monad_defs Let_def)

lemma closeSubscribers_effect:
  "pc (snd (closeSubscribers env subs s)) = pc s \<and>
   subscribers (snd (closeSubscribers env subs s)) = subscribers s \<and>
   pollActive (snd (closeSubscribers env subs s)) = pollActive s \<and>
   ((\<forall>n. \<not> throws env n) \<longrightarrow>
      openPcs (snd (closeSubscribers env subs s)) = openPcs s - sub_pc ` snd ` set subs)"
proof (induction subs arbitrary: s)
  case Nil
  show ?case by (simp add: retM_def)
next
  case (Cons x rest)
  obtain userId sub where x: "x = (userId, sub)" by (cases x)
  define first where "first = tryCatch
          (thenM (pc_close env (sub_pc sub))
             (logger Debug (''[JanusClient] Closed subscriber connection for '' @ userId)))
          (\<lambda>error. logger Err (''[JanusClient] Error closing subscriber for '' @ userId @ '':''))"
  obtain s1 where f: "first s = (Inr (), s1)"
    and s1: "pc s1 = pc s" "subscribers s1 = subscribers s" "pollActive s1 = pollActive s"
      "(\<forall>n. \<not> throws env n) \<longrightarrow> openPcs s1 = openPcs s - {sub_pc sub}"
    by (simp add: first_def close_one)
  have "closeSubscribers env (x # rest) s = thenM first (closeSubscribers env rest) s"
    by (simp add: x first_def)
  also have "\<dots> = closeSubscribers env rest s1"
    by (rule thenM_apply [of first s "()" s1, OF f])
  finally show ?case using Cons.IH [of s1] s1 by (auto simp: x)
qed

lemma close_publisher:
  "thenM (tryCatch (pc_close env p) (\<lambda>error. logger Err b)) (modifyM (\<lambda>s. s\<lparr>pc := None\<rparr>)) s =
     (Inr (),
      if throws env (calls s) then
        s\<lparr>calls := Suc (calls s), trace := trace s @ [External (Some p) Close, Log Err b],
          pc := None\<rparr>
      else
        s\<lparr>calls := Suc (calls s), trace := trace s @ [External (Some p) Close],
          openPcs := openPcs s - {p}, iceConnectionState := (iceConnectionState s)(p := Closed),
          pc := None\<rparr>)"
  by (simp add: pc_close_def external_def monad_defs Let_def)

lemma stop_effect:
  "fst (stop env s) = Inr () \<and> \<not> pollActive (snd (stop env s)) \<and>
   subscribers (snd (stop env s)) = [] \<and> pc (snd (stop env s)) = None \<and>
   ((\<forall>n. \<not> throws env n) \<longrightarrow>
      openPcs (snd (stop env s)) =
        openPcs s - (sub_pc ` snd ` set (subscribers s) \<union> set_option (pc s)))"
proof -
  define closeAll where "closeAll = (\<lambda>s. closeSubscribers env (subscribers s) s)"
  define closeMain where "closeMain =
     (\<lambda>s. case pc s of
               None \<Rightarrow> retM () s
             | Some p \<Rightarrow>
                 thenM
                   (tryCatch (pc_close env p)
                      (\<lambda>error. logger Err
                         ''[JanusClient] Error closing main peer connection:''))
                   (modifyM (\<lambda>s. s\<lparr>pc := None\<rparr>)) s)"
  define s1 where "s1 = s\<lparr>trace := trace s @ [Log Info ''[JanusClient] Stopping...'']\<rparr>"
  define s2 where "s2 = s1\<lparr>pollActive := False\<rparr>"
  define s3 where "s3 = snd (closeAll s2)"
  define s4 where "s4 = s3\<lparr>subscribers := []\<rparr>"
  define s5 where "s5 = snd (closeMain s4)"
  have a: "logger Info ''[JanusClient] Stopping...'' s = (Inr (), s1)"
    by (simp add: s1_def monad_defs)
  have b: "modifyM (\<lambda>s. s\<lparr>pollActive := False\<rparr>) s1 = (Inr (), s2)"
    by (simp add: s2_def modifyM_def)
  have c: "closeAll s2 = (Inr (), s3)"
    using returns_run [OF returns_closeSubscribers, of env "subscribers s2" s2]
    by (simp add: s3_def closeAll_def)
  have d: "modifyM (\<lambda>s. s\<lparr>subscribers := []\<rparr>) s3 = (Inr (), s4)"
    by (simp add: s4_def modifyM_def)
  have e3: "pc s3 = pc s" "pollActive s3 = False"
    "(\<forall>n. \<not> throws env n) \<longrightarrow> openPcs s3 = openPcs s - sub_pc ` snd ` set (subscribers s)"
    using closeSubscribers_effect [of env "subscribers s2" s2]
    by (simp_all add: s3_def closeAll_def) (simp_all add: s2_def s1_def)
  have e4: "pc s4 = pc s" "pollActive s4 = False" "subscribers s4 = []"
    "(\<forall>n. \<not> throws env n) \<longrightarrow> openPcs s4 = openPcs s - sub_pc ` snd ` set (subscribers s)"
    using e3 by (simp_all add: s4_def)
  have e: "closeMain s4 = (Inr (), s5)"
    and e5: "pc s5 = None" "pollActive s5 = False" "subscribers s5 = []"
    "(\<forall>n. \<not> throws env n) \<longrightarrow>
       openPcs s5 = openPcs s - (sub_pc ` snd ` set (subscribers s) \<union> set_option (pc s))"
    using e4 by (cases "pc s"; auto simp: s5_def closeMain_def close_publisher retM_def)+
  have "stop env s =
     thenM (logger Info ''[JanusClient] Stopping...'')
    (thenM (modifyM (\<lambda>s. s\<lparr>pollActive := False\<rparr>))
    (thenM closeAll
    (thenM (modifyM (\<lambda>s. s\<lparr>subscribers := []\<rparr>))
    (thenM closeMain
       (logger Info ''[JanusClient] All WebRTC connections closed''))))) s"
    by (simp add: stop_def closeAll_def closeMain_def)
  also have "\<dots> = logger Info ''[JanusClient] All WebRTC connections closed'' s5"
    by (simp only:
        thenM_apply [of "logger Info ''[JanusClient] Stopping...''" s "()" s1, OF a]
        thenM_apply [of "modifyM (\<lambda>s. s\<lparr>pollActive := False\<rparr>)" s1 "()" s2, OF b]
        thenM_apply [of closeAll s2 "()" s3, OF c]
        thenM_apply [of "modifyM (\<lambda>s. s\<lparr>subscribers := []\<rparr>)" s3 "()" s4, OF d]
        thenM_apply [of closeMain s4 "()" s5, OF e])
  finally show ?thesis
    using e5 by (simp add: logger_def modifyM_def record_action_def)
qed

lemma stop_idle:
  "\<not> pollActive s \<Longrightarrow> subscribers s = [] \<Longrightarrow> pc s = None \<Longrightarrow>
   stop env s = (Inr (), s\<lparr>trace := trace s @
      [Log Info ''[JanusClient] Stopping...'',
       Log Info ''[JanusClient] All WebRTC connections closed'']\<rparr>)"
  by (simp add: stop_def monad_defs)

subsection \<open>One iteration of the poll loop\<close>

lemma doPoll_exception:
  assumes "pollActive s" and "\<not> falsy (sessionId s)"
    and "polled env (calls s) = Unreachable \<or> polled env (calls s) = Malformed"
  shows "doPoll env s =
     (Inr (), s\<lparr>calls := Suc (calls s), pollTimer := Some 500, trace := trace s @
        [Fetch Poll, Log Err ''[JanusClient] poll exception =>'', Schedule_poll 500]\<rparr>)"
  using assms
  by (auto simp: doPoll_def doPoll_try_def setTimeout_doPoll_def fetch_def monad_defs Let_def)

lemma doPoll_status:
  assumes "pollActive s" and "\<not> falsy (sessionId s)"
    and "polled env (calls s) = Status c t" and "c \<noteq> 404"
  shows "doPoll env s =
     (Inr (), s\<lparr>calls := Suc (calls s), pollTimer := Some 500, trace := trace s @
        [Fetch Poll, Log Warn ''[JanusClient] poll error =>'', Schedule_poll 500]\<rparr>)"
  using assms
  by (simp add: doPoll_def doPoll_try_def setTimeout_doPoll_def fetch_def monad_defs Let_def)

lemma doPoll_404:
  assumes "pollActive s" and "\<not> falsy (sessionId s)"
    and "polled env (calls s) = Status 404 t"
  shows "doPoll env s =
     (Inr (),
      if errorListener s then
        s\<lparr>calls := Suc (calls s), pollActive := False, trace := trace s @
          [Fetch Poll, Log Warn ''[JanusClient] poll error =>'',
           Log Err ''[JanusClient] Session not found (404), polling stopped'',
           Emit (ErrorEvent (Error ''[JanusClient] Session not found (404)''))]\<rparr>
      else
        s\<lparr>calls := Suc (calls s), pollActive := False, pollTimer := Some 500, trace := trace s @
          [Fetch Poll, Log Warn ''[JanusClient] poll error =>'',
           Log Err ''[JanusClient] Session not found (404), polling stopped'',
           Emit (ErrorEvent (Error ''[JanusClient] Session not found (404)'')),
           Log Err ''[JanusClient] poll exception =>'', Schedule_poll 500]\<rparr>)"
  using assms
  by (simp add: doPoll_def doPoll_try_def setTimeout_doPoll_def fetch_def monad_defs Let_def)

lemma pollTimerFires_inactive:
  "\<not> pollActive s \<Longrightarrow>
   \<not> pollActive (snd (pollTimerFires env s)) \<and>
   pollFetches (snd (pollTimerFires env s)) = pollFetches s"
  by (simp add: pollTimerFires_def doPoll_def pollFetches_def monad_defs split: option.splits)

lemma pollLoop_inactive:
  "\<not> pollActive s \<Longrightarrow> pollFetches (pollLoop n env s) = pollFetches s"
proof (induction n arbitrary: s)
  case 0
  show ?case by simp
next
  case (Suc n)
  have "\<not> pollActive (snd (pollTimerFires env s))"
    and "pollFetches (snd (pollTimerFires env s)) = pollFetches s"
    using pollTimerFires_inactive [OF Suc.prems] by simp_all
  then show ?case using Suc.IH [of "snd (pollTimerFires env s)"] by simp
qed

subsection \<open>Statements that call no subscription and start no feed discovery\<close>

named_theorems sil

lemma reflp_silent: "reflp silent"
  by (simp add: reflp_def silent_def)

lemma transp_silent: "transp silent"
  by (auto simp: transp_def silent_def)

lemmas sil_retM [sil] = keeps_retM [OF reflp_silent]
lemmas sil_throwM [sil] = keeps_throwM [OF reflp_silent]
lemmas sil_getsM [sil] = keeps_getsM [OF reflp_silent]
lemmas sil_bindM [sil] = keeps_bindM [OF transp_silent reflp_silent]
lemmas sil_thenM [sil] = keeps_thenM [OF transp_silent reflp_silent]
lemmas sil_tryCatch [sil] = keeps_tryCatch [OF transp_silent reflp_silent]
lemmas sil_struct [sil] = keeps_if_state [of silent] keeps_if [of silent]
  keeps_case_response [of silent] keeps_case_prod [of silent] keeps_case_option [of silent]

lemma sil_modifyM:
  "(\<And>s. trace (f s) = trace s) \<Longrightarrow> (\<And>s. waiters (f s) = waiters s) \<Longrightarrow>
   keeps silent (modifyM f)"
  by (simp add: keeps_def silent_def modifyM_def subscribeCalls_def discoveries_def)

lemma sil_logger [sil]: "keeps silent (logger l m)"
  by (simp add: keeps_def silent_def monad_defs subscribeCalls_def discoveries_def)

lemma sil_emit [sil]: "keeps silent (emit ev)"
  by (simp add: keeps_def silent_def monad_defs subscribeCalls_def discoveries_def
      split: emitted.splits)

lemma sil_fetch [sil]: "keeps silent (fetch answer req)"
  by (simp add: keeps_def silent_def fetch_def Let_def subscribeCalls_def discoveries_def
      split: response.splits)

lemma sil_external [sil]: "keeps silent (external env p op)"
  by (simp add: keeps_def silent_def external_def Let_def subscribeCalls_def discoveries_def)

lemma sil_on_pc [sil]: "keeps silent (on_pc env op)"
  unfolding on_pc_def [abs_def]
  by (simp add: keeps_def split: option.splits)
     (auto intro: keepsD [OF sil_throwM] keepsD [OF sil_external])

lemma sil_new_pc [sil]: "keeps silent (new_RTCPeerConnection env)"
  by (auto simp: keeps_def silent_def new_RTCPeerConnection_def external_def Let_def thenM_def
      bindM_def subscribeCalls_def discoveries_def)

lemma sil_register:
  "d \<noteq> discover_label \<Longrightarrow> keeps silent (waitForJanusEventWithPredicate p t d)"
  by (simp add: keeps_def silent_def waitForJanusEventWithPredicate_def Let_def
      subscribeCalls_def discoveries_def)

lemma length_filter_update:
  "i < length ws \<Longrightarrow> P w = P (ws ! i) \<Longrightarrow>
   length (filter P (ws[i := w])) = length (filter P ws)"
  by (induction ws arbitrary: i) (auto split: nat.splits)

lemma sil_eventHandler: "silent s (eventHandler i e s)"
  by (simp add: silent_def eventHandler_def subscribeCalls_def discoveries_def
      length_filter_update)

lemma sil_handlers: "silent s (fold (\<lambda>i. eventHandler i e) js s)"
proof (induction js arbitrary: s)
  case Nil
  show ?case by (simp add: silent_def)
next
  case (Cons j js)
  have "silent s (eventHandler j e s)" by (rule sil_eventHandler)
  moreover have "silent (eventHandler j e s) (fold (\<lambda>i. eventHandler i e) js (eventHandler j e s))"
    by (rule Cons.IH)
  ultimately show ?case using transp_silent by (auto dest: transpD)
qed

lemma sil_emitJanus: "silent s (emitJanus e s)"
  by (simp add: emitJanus_def sil_handlers)

lemma sil_feed: "silent s (fold emitJanus es s)"
proof (induction es arbitrary: s)
  case Nil
  show ?case by (simp add: silent_def)
next
  case (Cons e es)
  have "silent s (emitJanus e s)" by (rule sil_emitJanus)
  moreover have "silent (emitJanus e s) (fold emitJanus es (emitJanus e s))"
    by (rule Cons.IH)
  ultimately show ?case using transp_silent by (auto dest: transpD)
qed

lemma sil_timeoutFires: "silent s (timeoutFires i s)"
  by (simp add: silent_def timeoutFires_def subscribeCalls_def discoveries_def
      length_filter_update)

lemma sil_awaitM [sil]: "keeps silent (awaitM env i)"
proof -
  have "silent s (timeoutFires i (fold emitJanus (feed env i) s))" for s
    using sil_feed [of s "feed env i"] sil_timeoutFires [of "fold emitJanus (feed env i) s" i]
      transp_silent by (auto dest: transpD)
  then show ?thesis
    by (simp add: keeps_def awaitM_def Let_def split: promise.splits)
qed

lemma sil_attachPlugin [sil]: "keeps silent (attachPlugin env)"
  unfolding attachPlugin_def [abs_def] by (intro sil)

lemma sil_sendJanusMessage [sil]: "keeps silent (sendJanusMessage env h b j)"
  unfolding sendJanusMessage_def [abs_def] by (intro sil)

lemma sil_setupPeerConnection [sil]: "keeps silent (setupPeerConnection env)"
  unfolding setupPeerConnection_def setupPeerEvents_def
  by (intro sil sil_modifyM) (simp_all split: option.splits)

lemma sil_enableLocalAudio [sil]: "keeps silent (enableLocalAudio env)"
  unfolding enableLocalAudio_def [abs_def]
  by (intro sil sil_modifyM) simp_all

lemma sil_configurePublisher [sil]: "keeps silent (configurePublisher env sessionUUID)"
  unfolding configurePublisher_def [abs_def] by (intro sil)

lemma discover_label_other: "''subscriber attached + offer'' \<noteq> discover_label"
  by (simp add: discover_label_def)

lemma sil_subscribeSpeaker_try:
  "feedId \<noteq> 0 \<Longrightarrow> keeps silent (subscribeSpeaker_try env A feedId)"
  unfolding subscribeSpeaker_try_def
  by (simp only: if_False)
     ((intro sil sil_modifyM sil_register discover_label_other); simp)

lemma sil_subscribeSpeaker_catch [sil]: "keeps silent (subscribeSpeaker_catch A e)"
  unfolding subscribeSpeaker_catch_def by (intro sil)

lemma subscribeSpeaker_calls:
  assumes "feedId \<noteq> 0"
  shows "fst (subscribeSpeaker env A feedId s) = Inr () \<and>
     subscribeCalls (snd (subscribeSpeaker env A feedId s)) = subscribeCalls s @ [(A, feedId)] \<and>
     discoveries (snd (subscribeSpeaker env A feedId s)) = discoveries s"
proof -
  define s0 where "s0 = snd (subscribeSpeaker_enter A feedId s)"
  have e0: "subscribeSpeaker_enter A feedId s = (Inr (), s0)"
    and c0: "subscribeCalls s0 = subscribeCalls s @ [(A, feedId)]" "discoveries s0 = discoveries s"
    by (simp_all add: s0_def subscribeSpeaker_enter_def monad_defs subscribeCalls_def
        discoveries_def)
  have k: "keeps silent (tryCatch (subscribeSpeaker_try env A feedId) (subscribeSpeaker_catch A))"
    by (intro sil sil_subscribeSpeaker_try assms)
  have "subscribeSpeaker env A feedId s =
          tryCatch (subscribeSpeaker_try env A feedId) (subscribeSpeaker_catch A) s0"
    unfolding subscribeSpeaker_def
    by (rule thenM_apply [of "subscribeSpeaker_enter A feedId" s "()" s0, OF e0])
  then show ?thesis
    using keepsD [OF k, of s0] c0 returns_unit [OF returns_subscribeSpeaker, of env A feedId s]
    by (simp add: silent_def)
qed

lemmas guest_run = initializeGuestSpeaker_joined_def setupPeerConnection_def setupPeerEvents_def
  enableLocalAudio_def configurePublisher_def on_pc_def joined_event_def alice_def

subsection \<open>The guest path once the joined event is there\<close>

lemma joined_guest_subscribes_once:
  assumes "plugindata evt = Some pd"
    and "publishers (data pd) =
           Some [\<lparr>pub_id = 55, display = ''alice'', periscope_user_id = u\<rparr>]"
  shows "subscribeCalls (snd (initializeGuestSpeaker_joined env sessionUUID evt s)) =
           subscribeCalls s @
             (if fst (initializeGuestSpeaker_joined env sessionUUID evt s) = Inr ()
              then [(''alice'', 55)] else []) \<and>
         discoveries (snd (initializeGuestSpeaker_joined env sessionUUID evt s)) = discoveries s"
proof -
  define negotiate where "negotiate =
     thenM (modifyM (\<lambda>s. s\<lparr>publisherId := vr_id (data pd)\<rparr>))
    (thenM (logger Debug ''[JanusClient] guest joined => publisherId='')
    (thenM (logger Debug ''[JanusClient] existing publishers =>'')
    (thenM (setupPeerConnection env)
    (thenM (enableLocalAudio env)
       (configurePublisher env sessionUUID)))))"
  define rest where "rest =
     thenM (thenM (subscribeSpeaker env ''alice'' 55) (retM ()))
       (logger Info ''[JanusClient] Guest speaker negotiation complete'')"
  have k: "keeps silent negotiate"
    unfolding negotiate_def by (intro sil sil_modifyM) simp_all
  have whole: "initializeGuestSpeaker_joined env sessionUUID evt = thenM negotiate rest"
    using assms
    by (simp add: initializeGuestSpeaker_joined_def negotiate_def rest_def thenM_def bindM_def
        fun_eq_iff split: prod.splits sum.splits)
  obtain r s1 where n: "negotiate s = (r, s1)" by (cases "negotiate s")
  have q: "silent s s1" using keepsD [OF k, of s] n by simp
  show ?thesis
  proof (cases r)
    case (Inl e)
    then show ?thesis using whole n q by (simp add: thenM_def bindM_def silent_def)
  next
    case (Inr x)
    have c: "fst (subscribeSpeaker env ''alice'' 55 s1) = Inr ()"
      "subscribeCalls (snd (subscribeSpeaker env ''alice'' 55 s1)) =
         subscribeCalls s1 @ [(''alice'', 55)]"
      "discoveries (snd (subscribeSpeaker env ''alice'' 55 s1)) = discoveries s1"
      using subscribeSpeaker_calls [of 55 env "''alice''" s1] by simp_all
    obtain s2 where sub: "subscribeSpeaker env ''alice'' 55 s1 = (Inr (), s2)"
      using c(1) by (cases "subscribeSpeaker env ''alice'' 55 s1") simp
    have "initializeGuestSpeaker_joined env sessionUUID evt s = rest s1"
      using whole n Inr by (simp add: thenM_def bindM_def)
    also have "\<dots> = (Inr (), s2\<lparr>trace := trace s2 @
        [Log Info ''[JanusClient] Guest speaker negotiation complete'']\<rparr>)"
      using sub by (simp add: rest_def monad_defs)
    finally show ?thesis
      using c sub q by (simp add: silent_def subscribeCalls_def discoveries_def)
  qed
qed

subsection \<open>The sibling paths register their waiter before they send\<close>

lemma joinRoom_registers_first:
  "take 4 (trace (snd (joinRoom gateway_ok session_client))) =
     [Log Debug ''[JanusClient] joinRoom => start'', Set_timeout 0 12000, On_janus 0,
      Fetch (Janus_message (Some 200) Join_publisher No_jsep)]"
  by (simp add: run waiter_run joinRoom_def sendJanusMessage_def is_joined_def attached_event_def
      gateway_ok_def session_client_def new_client_def cong: run_cong)

lemma initializeGuestSpeaker_registers_first:
  "take 3 (drop 10 (trace (snd (initializeGuestSpeaker gateway_ok ''uuid'' (new_client True))))) =
     [Set_timeout 0 10000, On_janus 0,
      Fetch (Janus_message (Some 200) Join_publisher No_jsep)]"
  by (simp add: run waiter_run initializeGuestSpeaker_def createSession_def attachPlugin_def
      startPolling_def doPoll_def doPoll_try_def setTimeout_doPoll_def handleJanusEvent_def
      keepalive_def sendJanusMessage_def is_joined_def attached_event_def
      gateway_ok_def new_client_def toString_def cong: run_cong)

subsection \<open>A polled event changes no waiter\<close>

lemma handleJanusEvent_waiters:
  "waiters (snd (handleJanusEvent evt s)) = waiters s \<and>
   janusListeners (snd (handleJanusEvent evt s)) = janusListeners s"
  by (simp add: handleJanusEvent_def monad_defs split: option.splits emitted.splits)

lemma timeoutFires_listeners: "janusListeners (timeoutFires i s) = janusListeners s"
  by (simp add: timeoutFires_def)

subsection \<open>The waiter when events are emitted on \<^verbatim>\<open>'janus'\<close>\<close>

text \<open>
  Taken by itself, the handler of \<^verbatim>\<open>waitForJanusEventWithPredicate\<close> does what a waiter
  should: whatever other handlers are registered, when events are emitted on \<^verbatim>\<open>'janus'\<close>
  after the registration the promise is fulfilled with the first one that satisfies the
  predicate, and \<^verbatim>\<open>resolve\<close> is called once if there is one and never otherwise.
\<close>

lemma handler_other:
  assumes "j \<noteq> i"
  shows "waiters (eventHandler j e s) ! i = waiters s ! i"
    and "length (waiters (eventHandler j e s)) = length (waiters s)"
    and "(i \<in> set (janusListeners (eventHandler j e s))) = (i \<in> set (janusListeners s))"
    and "resolveCalls i (eventHandler j e s) = resolveCalls i s"
    and "distinct (janusListeners s) \<Longrightarrow> distinct (janusListeners (eventHandler j e s))"
  using assms by (auto simp: eventHandler_def resolveCalls_def in_set_remove1)

lemma handlers_other:
  assumes "i \<notin> set js"
  shows "waiters (fold (\<lambda>j. eventHandler j e) js s) ! i = waiters s ! i \<and>
     length (waiters (fold (\<lambda>j. eventHandler j e) js s)) = length (waiters s) \<and>
     (i \<in> set (janusListeners (fold (\<lambda>j. eventHandler j e) js s))) =
       (i \<in> set (janusListeners s)) \<and>
     resolveCalls i (fold (\<lambda>j. eventHandler j e) js s) = resolveCalls i s \<and>
     (distinct (janusListeners s) \<longrightarrow>
        distinct (janusListeners (fold (\<lambda>j. eventHandler j e) js s)))"
  using assms
proof (induction js arbitrary: s)
  case Nil
  show ?case by simp
next
  case (Cons j js)
  have ne: "j \<noteq> i" and rest: "i \<notin> set js" using Cons.prems by auto
  show ?case
    using Cons.IH [OF rest, of "eventHandler j e s"] handler_other [OF ne, where e = e and s = s] by simp
qed

lemma handler_own:
  assumes "i < length (waiters s)" and "predicate (waiters s ! i) = P"
    and "promise (waiters s ! i) = Pending" and "distinct (janusListeners s)"
  shows "P e \<Longrightarrow> promise (waiters (eventHandler i e s) ! i) = Fulfilled e"
    and "P e \<Longrightarrow> i \<notin> set (janusListeners (eventHandler i e s))"
    and "P e \<Longrightarrow> resolveCalls i (eventHandler i e s) = Suc (resolveCalls i s)"
    and "\<not> P e \<Longrightarrow> eventHandler i e s = s"
    and "length (waiters (eventHandler i e s)) = length (waiters s)"
    and "distinct (janusListeners (eventHandler i e s))"
  using assms by (auto simp: eventHandler_def resolveCalls_def settle_def)

lemma emitJanus_done:
  assumes "i \<notin> set (janusListeners s)"
  shows "waiters (emitJanus e s) ! i = waiters s ! i \<and>
     i \<notin> set (janusListeners (emitJanus e s)) \<and>
     resolveCalls i (emitJanus e s) = resolveCalls i s"
  using handlers_other [OF assms, of e s] assms by (simp add: emitJanus_def)

lemma emitJanus_live:
  assumes "live i P s"
  shows "P e \<Longrightarrow> promise (waiters (emitJanus e s) ! i) = Fulfilled e \<and>
            i \<notin> set (janusListeners (emitJanus e s)) \<and>
            resolveCalls i (emitJanus e s) = Suc (resolveCalls i s)"
    and "\<not> P e \<Longrightarrow> live i P (emitJanus e s) \<and>
            resolveCalls i (emitJanus e s) = resolveCalls i s"
proof -
  have d: "distinct (janusListeners s)" and m: "i \<in> set (janusListeners s)"
    using assms by (simp_all add: live_def)
  obtain pre post where sp: "janusListeners s = pre @ i # post"
    using m by (auto dest: split_list)
  have np: "i \<notin> set pre" "i \<notin> set post" using d sp by auto
  define a where "a = fold (\<lambda>j. eventHandler j e) pre s"
  define b where "b = eventHandler i e a"
  have e: "emitJanus e s = fold (\<lambda>j. eventHandler j e) post b"
    by (simp add: emitJanus_def sp a_def b_def)
  have pa: "waiters a ! i = waiters s ! i" "length (waiters a) = length (waiters s)"
    "i \<in> set (janusListeners a)" "resolveCalls i a = resolveCalls i s"
    "distinct (janusListeners a)"
    using handlers_other [OF np(1), of e s] m d by (simp_all add: a_def)
  have own: "i < length (waiters a)" "predicate (waiters a ! i) = P"
    "promise (waiters a ! i) = Pending"
    using assms pa by (simp_all add: live_def)
  note hb = handler_own [OF own pa(5), where e = e, folded b_def]
  note hc = handlers_other [OF np(2), of e b, folded e]
  show "promise (waiters (emitJanus e s) ! i) = Fulfilled e \<and>
            i \<notin> set (janusListeners (emitJanus e s)) \<and>
            resolveCalls i (emitJanus e s) = Suc (resolveCalls i s)" if "P e"
    using hb(1,2,3) [OF that] hc pa(4) by simp
  show "live i P (emitJanus e s) \<and> resolveCalls i (emitJanus e s) = resolveCalls i s"
    if "\<not> P e"
    using hb(4) [OF that] hb(5,6) hc pa own by (simp add: live_def)
qed

lemma feed_done:
  "i \<notin> set (janusListeners s) \<Longrightarrow>
   waiters (fold emitJanus evs s) ! i = waiters s ! i \<and>
   resolveCalls i (fold emitJanus evs s) = resolveCalls i s"
proof (induction evs arbitrary: s)
  case Nil
  show ?case by simp
next
  case (Cons e evs)
  show ?case
    using emitJanus_done [OF Cons.prems, of e] Cons.IH [of "emitJanus e s"] by simp
qed

lemma feed_live:
  "live i P s \<Longrightarrow>
   promise (waiters (fold emitJanus evs s) ! i) =
     (case find P evs of None \<Rightarrow> Pending | Some e \<Rightarrow> Fulfilled e) \<and>
   resolveCalls i (fold emitJanus evs s) =
     resolveCalls i s + (if find P evs = None then 0 else 1)"
proof (induction evs arbitrary: s)
  case Nil
  then show ?case by (simp add: live_def)
next
  case (Cons e evs)
  show ?case
  proof (cases "P e")
    case True
    have 1: "promise (waiters (emitJanus e s) ! i) = Fulfilled e"
      "i \<notin> set (janusListeners (emitJanus e s))"
      "resolveCalls i (emitJanus e s) = Suc (resolveCalls i s)"
      using emitJanus_live(1) [OF Cons.prems True] by simp_all
    show ?thesis using feed_done [OF 1(2), of evs] 1 True by simp
  next
    case False
    have 1: "live i P (emitJanus e s)" "resolveCalls i (emitJanus e s) = resolveCalls i s"
      using emitJanus_live(2) [OF Cons.prems False] by simp_all
    show ?thesis using Cons.IH [OF 1(1)] 1(2) False by simp
  qed
qed

lemma register_live:
  assumes "distinct (janusListeners s)" and "\<forall>j\<in>set (janusListeners s). j < length (waiters s)"
  shows "live (length (waiters s)) P (snd (waitForJanusEventWithPredicate P t d s))"
    and "resolveCalls i (snd (waitForJanusEventWithPredicate P t d s)) = resolveCalls i s"
  using assms
  by (auto simp: live_def waitForJanusEventWithPredicate_def Let_def nth_append resolveCalls_def)

lemma waiter_resolves_with_first_match:
  assumes "distinct (janusListeners s)" and "\<forall>j\<in>set (janusListeners s). j < length (waiters s)"
  shows "promise (waiters (fold emitJanus evs
            (snd (waitForJanusEventWithPredicate P t d s))) ! length (waiters s)) =
       (case find P evs of None \<Rightarrow> Pending | Some e \<Rightarrow> Fulfilled e) \<and>
     resolveCalls (length (waiters s))
        (fold emitJanus evs (snd (waitForJanusEventWithPredicate P t d s))) =
       resolveCalls (length (waiters s)) s + (if find P evs = None then 0 else 1)"
  using feed_live [OF register_live(1) [OF assms, of P t d], of evs]
    register_live(2) [OF assms, of "length (waiters s)" P t d]
  by simp

text \<open>
  Registering and then awaiting: the caller gets the first event of the waiter's window
  that satisfies the predicate, or else the timeout error with the waiter's label; in the
  second case the handler is still registered afterwards.
\<close>

lemma length_eventHandler: "length (waiters (eventHandler j e s)) = length (waiters s)"
  by (simp add: eventHandler_def)

lemma length_handlers:
  "length (waiters (fold (\<lambda>j. eventHandler j e) js s)) = length (waiters s)"
  by (induction js arbitrary: s) (simp_all add: length_eventHandler)

lemma length_feed: "length (waiters (fold emitJanus evs s)) = length (waiters s)"
  by (induction evs arbitrary: s) (simp_all add: emitJanus_def length_handlers)

lemma emitJanus_live':
  assumes "live i P s"
  shows "P e \<Longrightarrow> waiters (emitJanus e s) ! i =
            (waiters s ! i)\<lparr>timer := False, promise := Fulfilled e\<rparr> \<and>
            i < length (waiters (emitJanus e s))"
    and "\<not> P e \<Longrightarrow> waiters (emitJanus e s) ! i = waiters s ! i"
proof -
  have d: "distinct (janusListeners s)" and m: "i \<in> set (janusListeners s)"
    and own: "i < length (waiters s)" "predicate (waiters s ! i) = P"
      "promise (waiters s ! i) = Pending"
    using assms by (simp_all add: live_def)
  obtain pre post where sp: "janusListeners s = pre @ i # post"
    using m by (auto dest: split_list)
  have np: "i \<notin> set pre" "i \<notin> set post" using d sp by auto
  define a where "a = fold (\<lambda>j. eventHandler j e) pre s"
  define b where "b = eventHandler i e a"
  have e: "emitJanus e s = fold (\<lambda>j. eventHandler j e) post b"
    by (simp add: emitJanus_def sp a_def b_def)
  have pa: "waiters a ! i = waiters s ! i" "length (waiters a) = length (waiters s)"
    using handlers_other [OF np(1), of e s] by (simp_all add: a_def)
  have pb: "P e \<Longrightarrow> waiters b ! i = (waiters s ! i)\<lparr>timer := False, promise := Fulfilled e\<rparr>"
    "\<not> P e \<Longrightarrow> waiters b ! i = waiters s ! i" "length (waiters b) = length (waiters s)"
    using pa own by (simp_all add: b_def eventHandler_def settle_def)
  note hc = handlers_other [OF np(2), of e b, folded e]
  show "waiters (emitJanus e s) ! i = (waiters s ! i)\<lparr>timer := False, promise := Fulfilled e\<rparr> \<and>
            i < length (waiters (emitJanus e s))" if "P e"
    using pb(1) [OF that] pb(3) hc own by simp
  show "waiters (emitJanus e s) ! i = waiters s ! i" if "\<not> P e"
    using pb(2) [OF that] hc by simp
qed

lemma feed_waiter:
  "live i P s \<Longrightarrow>
   waiters (fold emitJanus evs s) ! i =
     (case find P evs of
        None \<Rightarrow> waiters s ! i
      | Some e \<Rightarrow> (waiters s ! i)\<lparr>timer := False, promise := Fulfilled e\<rparr>) \<and>
   i < length (waiters (fold emitJanus evs s)) \<and>
   (find P evs = None \<longrightarrow> i \<in> set (janusListeners (fold emitJanus evs s)))"
proof (induction evs arbitrary: s)
  case Nil
  then show ?case by (simp add: live_def)
next
  case (Cons e evs)
  show ?case
  proof (cases "P e")
    case True
    have 1: "i \<notin> set (janusListeners (emitJanus e s))"
      using emitJanus_live(1) [OF Cons.prems True] by simp
    have 2: "waiters (emitJanus e s) ! i =
        (waiters s ! i)\<lparr>timer := False, promise := Fulfilled e\<rparr>"
      "i < length (waiters (emitJanus e s))"
      using emitJanus_live'(1) [OF Cons.prems True] by simp_all
    show ?thesis using feed_done [OF 1, of evs] 2 True by (simp add: length_feed)
  next
    case False
    have 1: "live i P (emitJanus e s)"
      using emitJanus_live(2) [OF Cons.prems False] by simp
    have 2: "waiters (emitJanus e s) ! i = waiters s ! i"
      using emitJanus_live'(2) [OF Cons.prems False] by simp
    show ?thesis using Cons.IH [OF 1] 2 False by (simp split: option.splits)
  qed
qed

lemma await_outcome:
  assumes "distinct (janusListeners s)" and "\<forall>j\<in>set (janusListeners s). j < length (waiters s)"
  shows "fst (bindM (waitForJanusEventWithPredicate P t d) (awaitM env) s) =
       (case find P (feed env (length (waiters s))) of
          None \<Rightarrow> Inl (Error (''[JanusClient] Timeout waiting for '' @ d @ '' event''))
        | Some e \<Rightarrow> Inr e)"
    and "find P (feed env (length (waiters s))) = None \<Longrightarrow>
       length (waiters s) \<in>
         set (janusListeners (snd (bindM (waitForJanusEventWithPredicate P t d) (awaitM env) s)))"
proof -
  define i where "i = length (waiters s)"
  define s1 where "s1 = snd (waitForJanusEventWithPredicate P t d s)"
  define s2 where "s2 = fold emitJanus (feed env i) s1"
  have r: "waitForJanusEventWithPredicate P t d s = (Inr i, s1)"
    by (simp add: s1_def i_def waitForJanusEventWithPredicate_def Let_def)
  have l: "live i P s1"
    unfolding i_def s1_def by (rule register_live(1) [OF assms])
  have w1: "waiters s1 ! i = \<lparr>predicate = P, description = d, timer = True, promise = Pending\<rparr>"
    by (simp add: s1_def i_def waitForJanusEventWithPredicate_def Let_def)
  note f = feed_waiter [OF l, of "feed env i", folded s2_def]
  have whole: "bindM (waitForJanusEventWithPredicate P t d) (awaitM env) s = awaitM env i s1"
    by (rule bindM_apply [of "waitForJanusEventWithPredicate P t d" s i s1, OF r])
  show "fst (bindM (waitForJanusEventWithPredicate P t d) (awaitM env) s) =
       (case find P (feed env (length (waiters s))) of
          None \<Rightarrow> Inl (Error (''[JanusClient] Timeout waiting for '' @ d @ '' event''))
        | Some e \<Rightarrow> Inr e)"
    using f w1
    by (cases "find P (feed env i)")
       (simp_all add: whole awaitM_def s2_def [symmetric] timeoutFires_def settle_def
          i_def [symmetric])
  show "length (waiters s) \<in>
         set (janusListeners (snd (bindM (waitForJanusEventWithPredicate P t d) (awaitM env) s)))"
    if "find P (feed env (length (waiters s))) = None"
    using f w1 that
    by (simp add: whole awaitM_def s2_def [symmetric] timeoutFires_def settle_def
        i_def [symmetric])
qed

subsection \<open>ICE failure of a subscriber\<close>

lemma subscriber_ice_failure_warns:
  "iceConnectionState s subPc = Failed \<Longrightarrow>
   subscriber_oniceconnectionstatechange userId subPc s =
     (Inr (), s\<lparr>trace := trace s @
        [Log Debug (''[JanusClient] Subscriber ICE state for '' @ userId),
         Log Warn (''[JanusClient] Subscriber ICE connection failed for '' @ userId),
         Emit (WarningEvent (Error
           (''[JanusClient] Subscriber ICE connection failed for '' @ userId)))]\<rparr>)"
  by (simp add: subscriber_oniceconnectionstatechange_def monad_defs)

subsection \<open>A suspended call of \<^verbatim>\<open>restartIce\<close>\<close>

lemma resumed_None: "resumed n env None = retM None"
  by (cases n) simp_all

lemma resumptions:
  "k = 0 \<or> k = Suc 0 \<or> k = Suc (Suc 0) \<or> (\<exists>m. k = Suc (Suc (Suc m)))"
  by (cases k; cases "k - 1"; cases "k - 2") auto

lemmas ice_run = reconnect_def resumed_None iceconnectionstatechange_def
  on_iceconnectionstatechange_def restartIce_def restartIce_catch_def suspend_def on_pc_def
  external_def sendJanusMessage_def fetch_def

lemma disconnected_report:
  assumes "pc s = Some p" and "p \<in> peerEvents s" and "\<not> falsy (handleId s)"
    and "\<not> throws env (calls s)"
  shows "iceconnectionstatechange env p Disconnected s =
           (Inr (Some (Await_createOffer (Inr ()))),
            s\<lparr>iceConnectionState := (iceConnectionState s)(p := Disconnected),
              calls := Suc (calls s),
              trace := trace s @
                [Log Debug ''[JanusClient] ICE connection state:'',
                 Log Warn ''[JanusClient] ICE connection disconnected, attempting restart...'',
                 Log Info ''[JanusClient] Attempting to restart ICE negotiation...'',
                 External (Some p) (Create_offer True)]\<rparr>)"
  using assms by (simp add: ice_run monad_defs Let_def)

lemma restart_alone:
  assumes "pc s = Some p" and "p \<in> peerEvents s"
    and "\<not> falsy (handleId s)" and "\<not> falsy (sessionId s)"
    and "\<not> throws env (calls s)" and "\<not> throws env (Suc (calls s))"
  shows "fst (bindM (iceconnectionstatechange env p Disconnected) (resumed 3 env) s) = Inr None \<and>
         restartOffers (snd (bindM (iceconnectionstatechange env p Disconnected)
                                (resumed 3 env) s)) = Suc (restartOffers s) \<and>
         timers (snd (bindM (iceconnectionstatechange env p Disconnected)
                         (resumed 3 env) s)) = timers s"
  using assms
  by (cases "msg env (Suc (Suc (calls s)))")
     (simp_all add: ice_run monad_defs Let_def restartOffers_def timers_def numeral_3_eq_3)

lemma reconnect_any:
  assumes "pc s = Some p" and "p \<in> peerEvents s"
    and "\<not> falsy (handleId s)" and "\<not> falsy (sessionId s)"
    and "\<not> throws env (calls s)" and "\<not> throws env (Suc (calls s))"
  shows "fst (reconnect k env p s) = Inr None \<and>
         restartOffers (snd (reconnect k env p s)) = Suc (restartOffers s) \<and>
         timers (snd (reconnect k env p s)) = timers s \<and>
         iceConnectionState (snd (reconnect k env p s)) p = Connected"
proof -
  consider "k = 0" | "k = Suc 0" | "k = Suc (Suc 0)" | m where "k = Suc (Suc (Suc m))"
    using resumptions [of k] by blast
  then show ?thesis
  proof cases
    case 1
    show ?thesis
      using assms unfolding 1
      by (cases "msg env (Suc (Suc (calls s)))")
         (simp_all add: ice_run monad_defs Let_def restartOffers_def timers_def numeral_3_eq_3)
  next
    case 2
    show ?thesis
      using assms unfolding 2
      by (cases "msg env (Suc (Suc (calls s)))")
         (simp_all add: ice_run monad_defs Let_def restartOffers_def timers_def numeral_3_eq_3)
  next
    case 3
    show ?thesis
      using assms unfolding 3
      by (cases "msg env (Suc (Suc (calls s)))")
         (simp_all add: ice_run monad_defs Let_def restartOffers_def timers_def numeral_3_eq_3)
  next
    case 4
    show ?thesis
      using assms unfolding 4
      by (cases "msg env (Suc (Suc (calls s)))")
         (simp_all add: ice_run monad_defs Let_def restartOffers_def timers_def numeral_3_eq_3)
  qed
qed

section \<open>The claims\<close>

subsection \<open>C1: what a polled event does to a waiter\<close>

text \<open>
  Claim C1 at a concrete input. A waiter for the joined event is registered, and the poll
  loop then receives an event that satisfies its predicate and hands it to
  \<^verbatim>\<open>handleJanusEvent\<close>: the event is logged, the waiter's handler is not called and its
  promise stays pending. \<^verbatim>\<open>handleJanusEvent\<close> never emits on \<^verbatim>\<open>'janus'\<close>
  (\<open>handleJanusEvent_waiters\<close>), so with nobody else emitting there \<^verbatim>\<open>joinRoom\<close> ends in the
  timeout error. For events that do reach \<^verbatim>\<open>'janus'\<close> the waiter is right:
  \<open>waiter_resolves_with_first_match\<close>.
\<close>

theorem polled_event_never_reaches_waiter:
  "is_joined (joined_event 7 []) \<and>
   trace (snd (doPoll gateway_joined
      (snd (waitForJanusEventWithPredicate is_joined 12000 ''Host Joined Event''
              (polling_client True))))) =
     [Set_timeout 0 12000, On_janus 0, Fetch Poll,
      Log Debug ''[JanusClient] Received Janus event:'',
      Log Info ''[JanusClient] Joined room as'', Schedule_poll 500] \<and>
   map promise (waiters (snd (doPoll gateway_joined
      (snd (waitForJanusEventWithPredicate is_joined 12000 ''Host Joined Event''
              (polling_client True)))))) = [Pending] \<and>
   fst (joinRoom gateway_joined (polling_client True)) =
     Inl (Error ''[JanusClient] Timeout waiting for Host Joined Event event'')"
  by (simp add: run waiter_run doPoll_def doPoll_try_def setTimeout_doPoll_def
      handleJanusEvent_def joinRoom_def sendJanusMessage_def is_joined_def joined_event_def
      gateway_joined_def gateway_ok_def polling_client_def new_client_def cong: run_cong)

theorem polled_event_never_reaches_waiter_witness:
  "fst (joinRoom gateway_joined (polling_client True)) =
     Inl (Error ''[JanusClient] Timeout waiting for Host Joined Event event'')"
  using polled_event_never_reaches_waiter by simp

subsection \<open>C2: one entry per participant, and what a second subscription does\<close>




subsection \<open>C3: what a disconnected publisher does\<close>

text \<open>
  Claim C3 as the code has it. There is no grace timer: when the ICE state of the
  publisher's peer connection becomes \<^verbatim>\<open>disconnected\<close>, the listener calls \<^verbatim>\<open>restartIce\<close>
  at once, which asks for an offer with \<^verbatim>\<open>iceRestart: true\<close> and is then suspended; no
  timer is started. With a peer connection, a session and a handle, and when creating
  and setting the offer succeed, that call sends exactly one ICE-restart offer once the
  event loop has resumed it: when the state stays \<^verbatim>\<open>disconnected\<close>, and just as well when
  it becomes \<^verbatim>\<open>connected\<close> again before, between or after the steps of the call.
\<close>

theorem disconnected_restarts_ice_without_timer:
  assumes "pc s = Some p" and "p \<in> peerEvents s"
    and "\<not> falsy (handleId s)" and "\<not> falsy (sessionId s)"
    and "\<not> throws env (calls s)" and "\<not> throws env (Suc (calls s))"
  shows "iceconnectionstatechange env p Disconnected s =
           (Inr (Some (Await_createOffer (Inr ()))),
            s\<lparr>iceConnectionState := (iceConnectionState s)(p := Disconnected),
              calls := Suc (calls s),
              trace := trace s @
                [Log Debug ''[JanusClient] ICE connection state:'',
                 Log Warn ''[JanusClient] ICE connection disconnected, attempting restart...'',
                 Log Info ''[JanusClient] Attempting to restart ICE negotiation...'',
                 External (Some p) (Create_offer True)]\<rparr>) \<and>
         fst (bindM (iceconnectionstatechange env p Disconnected) (resumed 3 env) s) = Inr None \<and>
         restartOffers (snd (bindM (iceconnectionstatechange env p Disconnected)
                                (resumed 3 env) s)) = Suc (restartOffers s) \<and>
         timers (snd (bindM (iceconnectionstatechange env p Disconnected)
                         (resumed 3 env) s)) = timers s \<and>
         fst (reconnect k env p s) = Inr None \<and>
         restartOffers (snd (reconnect k env p s)) = Suc (restartOffers s) \<and>
         timers (snd (reconnect k env p s)) = timers s \<and>
         iceConnectionState (snd (reconnect k env p s)) p = Connected"
  using disconnected_report [OF assms(1,2,3,5)] restart_alone [OF assms]
    reconnect_any [OF assms, of k]
  by simp

theorem disconnected_restarts_ice_without_timer_witness:
  "iceconnectionstatechange gateway_ok 0 Disconnected publisher_client =
     (Inr (Some (Await_createOffer (Inr ()))),
      publisher_client\<lparr>iceConnectionState := (\<lambda>_. New)(0 := Disconnected), calls := 1,
        trace :=
          [Log Debug ''[JanusClient] ICE connection state:'',
           Log Warn ''[JanusClient] ICE connection disconnected, attempting restart...'',
           Log Info ''[JanusClient] Attempting to restart ICE negotiation...'',
           External (Some 0) (Create_offer True)]\<rparr>) \<and>
   restartOffers (snd (bindM (iceconnectionstatechange gateway_ok 0 Disconnected)
                          (resumed 3 gateway_ok) publisher_client)) = 1 \<and>
   restartOffers (snd (reconnect 1 gateway_ok 0 publisher_client)) = 1 \<and>
   timers (snd (reconnect 1 gateway_ok 0 publisher_client)) = 0"
proof -
  have h: "pc publisher_client = Some 0" "0 \<in> peerEvents publisher_client"
    "\<not> falsy (handleId publisher_client)" "\<not> falsy (sessionId publisher_client)"
    "\<not> throws gateway_ok (calls publisher_client)"
    "\<not> throws gateway_ok (Suc (calls publisher_client))"
    by (simp_all add: publisher_client_def session_client_def new_client_def falsy_def
        gateway_ok_def)
  have before: "restartOffers publisher_client = 0" "timers publisher_client = 0"
    "calls publisher_client = 0" "trace publisher_client = []"
    "iceConnectionState publisher_client = (\<lambda>_. New)"
    by (simp_all add: restartOffers_def timers_def publisher_client_def session_client_def
        new_client_def)
  show ?thesis
    using disconnected_restarts_ice_without_timer [OF h, of 1]
    by (simp add: before)
qed

text \<open>
  Claim C3 as stated fails: the state is \<^verbatim>\<open>disconnected\<close> and at once \<^verbatim>\<open>connected\<close> again,
  before the suspended call of \<^verbatim>\<open>restartIce\<close> is resumed, and the restart offer is sent
  all the same; no timer was set.
\<close>

theorem reconnect_in_grace_period_still_restarts:
  "trace (snd (reconnect 0 gateway_ok 0 publisher_client)) =
     [Log Debug ''[JanusClient] ICE connection state:'',
      Log Warn ''[JanusClient] ICE connection disconnected, attempting restart...'',
      Log Info ''[JanusClient] Attempting to restart ICE negotiation...'',
      External (Some 0) (Create_offer True),
      Log Debug ''[JanusClient] ICE connection state:'',
      External (Some 0) Set_local_description,
      Fetch (Janus_message (Some 200) (Configure None) (Offer True)),
      Log Info ''[JanusClient] ICE restart initiated''] \<and>
   iceConnectionState (snd (reconnect 0 gateway_ok 0 publisher_client)) 0 = Connected \<and>
   pollTimer (snd (reconnect 0 gateway_ok 0 publisher_client)) = None"
  by (simp add: run ice_run numeral_3_eq_3 gateway_ok_def publisher_client_def
      session_client_def new_client_def cong: run_cong)

subsection \<open>C4: a waiter after its timeout\<close>

text \<open>
  Claim C4 at a concrete input. When the timer of a waiter fires, its promise is rejected
  with the timeout error that carries the label, but its handler is still registered on
  \<^verbatim>\<open>'janus'\<close>: an event satisfying the predicate that is emitted afterwards runs the
  handler, which only then removes itself and calls \<^verbatim>\<open>resolve\<close>. (In general:
  \<open>await_outcome\<close> and \<open>timeoutFires_listeners\<close>.)
\<close>

theorem timed_out_waiter_stays_registered:
  "promise (waiters (timeoutFires 0
      (snd (waitForJanusEventWithPredicate is_joined 12000 ''Host Joined Event''
              (new_client True)))) ! 0) =
     Rejected (Error ''[JanusClient] Timeout waiting for Host Joined Event event'') \<and>
   janusListeners (timeoutFires 0
      (snd (waitForJanusEventWithPredicate is_joined 12000 ''Host Joined Event''
              (new_client True)))) = [0] \<and>
   trace (emitJanus (joined_event 7 []) (timeoutFires 0
      (snd (waitForJanusEventWithPredicate is_joined 12000 ''Host Joined Event''
              (new_client True))))) =
     [Set_timeout 0 12000, On_janus 0,
      Reject 0 (Error ''[JanusClient] Timeout waiting for Host Joined Event event''),
      Clear_timeout 0, Remove_listener 0, Resolve 0 (joined_event 7 [])]"
  by (simp add: waiter_run is_joined_def joined_event_def new_client_def)

subsection \<open>C5: the order of registering and sending\<close>

text \<open>
  Claim C5 at a concrete input. In \<^verbatim>\<open>subscribeSpeaker\<close> the subscriber's join request is
  sent, and awaited, before the waiter for the attached event is registered; the trace
  has the request first. (\<open>joinRoom_registers_first\<close> and
  \<open>initializeGuestSpeaker_registers_first\<close> show the other order in the two publisher
  paths.)
\<close>

theorem subscriber_join_precedes_waiter:
  "take 3 (drop 6 (trace (snd (subscribeSpeaker gateway_ok ''alice'' 55 session_client)))) =
     [Fetch (Janus_message (Some 200) (Join_subscriber 55) No_jsep),
      Set_timeout 0 8000, On_janus 0]"
  by (simp add: alice_once alice_client_def)

subsection \<open>C6: what the poll loop does on a failure\<close>

text \<open>
  Claim C6. In an iteration that polls (the flag is set and there is a session): a fetch
  that fails, or whose body cannot be decoded, is logged, and so is an HTTP error other
  than 404; in both cases the next iteration is scheduled after 500 ms and nothing else
  changes. A 404 clears the flag and emits the error \<^verbatim>\<open>Session not found (404)\<close>; with a
  listener on \<^verbatim>\<open>'error'\<close> no timer is set, and in every case no later iteration fetches.
\<close>

theorem doPoll_failure_policy:
  assumes "pollActive s" and "\<not> falsy (sessionId s)"
  shows
   "(polled env (calls s) = Unreachable \<or> polled env (calls s) = Malformed \<longrightarrow>
       doPoll env s =
         (Inr (), s\<lparr>calls := Suc (calls s), pollTimer := Some 500, trace := trace s @
            [Fetch Poll, Log Err ''[JanusClient] poll exception =>'', Schedule_poll 500]\<rparr>)) \<and>
    (\<forall>c t. polled env (calls s) = Status c t \<and> c \<noteq> 404 \<longrightarrow>
       doPoll env s =
         (Inr (), s\<lparr>calls := Suc (calls s), pollTimer := Some 500, trace := trace s @
            [Fetch Poll, Log Warn ''[JanusClient] poll error =>'', Schedule_poll 500]\<rparr>)) \<and>
    (\<forall>t. polled env (calls s) = Status 404 t \<longrightarrow>
       fst (doPoll env s) = Inr () \<and>
       \<not> pollActive (snd (doPoll env s)) \<and>
       Emit (ErrorEvent (Error ''[JanusClient] Session not found (404)''))
         \<in> set (trace (snd (doPoll env s))) \<and>
       (errorListener s \<longrightarrow>
          doPoll env s =
            (Inr (), s\<lparr>calls := Suc (calls s), pollActive := False, trace := trace s @
               [Fetch Poll, Log Warn ''[JanusClient] poll error =>'',
                Log Err ''[JanusClient] Session not found (404), polling stopped'',
                Emit (ErrorEvent (Error ''[JanusClient] Session not found (404)''))]\<rparr>)) \<and>
       (\<forall>n env'. pollFetches (pollLoop n env' (snd (doPoll env s))) =
                  pollFetches (snd (doPoll env s))))"
proof (intro conjI allI impI)
  assume "polled env (calls s) = Unreachable \<or> polled env (calls s) = Malformed"
  then show "doPoll env s =
         (Inr (), s\<lparr>calls := Suc (calls s), pollTimer := Some 500, trace := trace s @
            [Fetch Poll, Log Err ''[JanusClient] poll exception =>'', Schedule_poll 500]\<rparr>)"
    by (rule doPoll_exception [OF assms])
next
  fix c t
  assume "polled env (calls s) = Status c t \<and> c \<noteq> 404"
  then show "doPoll env s =
         (Inr (), s\<lparr>calls := Suc (calls s), pollTimer := Some 500, trace := trace s @
            [Fetch Poll, Log Warn ''[JanusClient] poll error =>'', Schedule_poll 500]\<rparr>)"
    using doPoll_status [OF assms] by blast
next
  fix t
  assume g: "polled env (calls s) = Status 404 t"
  note r = doPoll_404 [OF assms g]
  show "fst (doPoll env s) = Inr ()" by (simp add: r)
  show inactive: "\<not> pollActive (snd (doPoll env s))" by (simp add: r)
  show "Emit (ErrorEvent (Error ''[JanusClient] Session not found (404)''))
         \<in> set (trace (snd (doPoll env s)))" by (simp add: r)
  show "doPoll env s =
            (Inr (), s\<lparr>calls := Suc (calls s), pollActive := False, trace := trace s @
               [Fetch Poll, Log Warn ''[JanusClient] poll error =>'',
                Log Err ''[JanusClient] Session not found (404), polling stopped'',
                Emit (ErrorEvent (Error ''[JanusClient] Session not found (404)''))]\<rparr>)"
    if "errorListener s" using that by (simp add: r)
  show "pollFetches (pollLoop n env' (snd (doPoll env s))) = pollFetches (snd (doPoll env s))"
    for n env' by (rule pollLoop_inactive [OF inactive])
qed

theorem doPoll_failure_policy_witness:
  "doPoll gateway_down (polling_client True) =
     (Inr (), (polling_client True)\<lparr>calls := 1, pollTimer := Some 500, trace :=
        [Fetch Poll, Log Err ''[JanusClient] poll exception =>'', Schedule_poll 500]\<rparr>) \<and>
   doPoll (gateway_status 500) (polling_client True) =
     (Inr (), (polling_client True)\<lparr>calls := 1, pollTimer := Some 500, trace :=
        [Fetch Poll, Log Warn ''[JanusClient] poll error =>'', Schedule_poll 500]\<rparr>) \<and>
   doPoll (gateway_status 404) (polling_client True) =
     (Inr (), (polling_client True)\<lparr>calls := 1, pollActive := False, trace :=
        [Fetch Poll, Log Warn ''[JanusClient] poll error =>'',
         Log Err ''[JanusClient] Session not found (404), polling stopped'',
         Emit (ErrorEvent (Error ''[JanusClient] Session not found (404)''))]\<rparr>) \<and>
   pollFetches (pollLoop 3 gateway_ok (snd (doPoll (gateway_status 404) (polling_client True)))) =
     pollFetches (snd (doPoll (gateway_status 404) (polling_client True)))"
proof -
  have p: "pollActive (polling_client True)" "\<not> falsy (sessionId (polling_client True))"
    "errorListener (polling_client True)" "calls (polling_client True) = 0"
    "trace (polling_client True) = []"
    by (simp_all add: polling_client_def new_client_def falsy_def)
  have g: "polled gateway_down 0 = Unreachable"
    "polled (gateway_status 500) 0 = Status 500 ''gone''" "(500::nat) \<noteq> 404"
    "polled (gateway_status 404) 0 = Status 404 ''gone''"
    by (simp_all add: gateway_down_def gateway_status_def)
  have loop: "pollFetches (pollLoop 3 gateway_ok
                 (snd (doPoll (gateway_status 404) (polling_client True)))) =
     pollFetches (snd (doPoll (gateway_status 404) (polling_client True)))"
    using doPoll_failure_policy [OF p(1,2), of "gateway_status 404"] g(4) p(4) by simp
  have one: "doPoll gateway_down (polling_client True) =
     (Inr (), (polling_client True)\<lparr>calls := 1, pollTimer := Some 500, trace :=
        [Fetch Poll, Log Err ''[JanusClient] poll exception =>'', Schedule_poll 500]\<rparr>)"
    using doPoll_failure_policy [OF p(1,2), of gateway_down] g(1) by (simp add: p(4,5))
  have two: "doPoll (gateway_status 500) (polling_client True) =
     (Inr (), (polling_client True)\<lparr>calls := 1, pollTimer := Some 500, trace :=
        [Fetch Poll, Log Warn ''[JanusClient] poll error =>'', Schedule_poll 500]\<rparr>)"
    using doPoll_failure_policy [OF p(1,2), of "gateway_status 500"] g(2,3) by (simp add: p(4,5))
  have three: "doPoll (gateway_status 404) (polling_client True) =
     (Inr (), (polling_client True)\<lparr>calls := 1, pollActive := False, trace :=
        [Fetch Poll, Log Warn ''[JanusClient] poll error =>'',
         Log Err ''[JanusClient] Session not found (404), polling stopped'',
         Emit (ErrorEvent (Error ''[JanusClient] Session not found (404)''))]\<rparr>)"
    using doPoll_failure_policy [OF p(1,2), of "gateway_status 404"] g(4) p(3)
    by (simp add: p(4,5))
  show ?thesis
    using one two three loop by blast
qed

subsection \<open>C7: a failed subscription is isolated\<close>

text \<open>
  Claim C7. Whatever the gateway and the WebRTC library answer, \<^verbatim>\<open>subscribeSpeaker\<close>
  returns normally: an error raised by any step of its \<^verbatim>\<open>try\<close> block (attach, feed
  discovery, join, peer-connection setup, start) is caught, logged and emitted as a
  \<^verbatim>\<open>'warning'\<close> that carries it. The entries of all other participants in the subscriber
  map are unchanged by the call, and a failed call leaves the whole map as it was.
\<close>

theorem subscribeSpeaker_isolates_failure:
  "fst (subscribeSpeaker env A feedId s) = Inr () \<and>
   (\<forall>B. B \<noteq> A \<longrightarrow>
      map_of (subscribers (snd (subscribeSpeaker env A feedId s))) B = map_of (subscribers s) B) \<and>
   (\<forall>e. fst (subscribeSpeaker_try env A feedId (snd (subscribeSpeaker_enter A feedId s))) = Inl e \<longrightarrow>
      subscribers (snd (subscribeSpeaker env A feedId s)) = subscribers s \<and>
      (\<exists>t. trace (snd (subscribeSpeaker env A feedId s)) = t @
         [Log Err (''[JanusClient] Failed to subscribe to speaker '' @ A @ '':''),
          Emit (WarningEvent (Error (''[JanusClient] Failed to subscribe to speaker '' @
                                       A @ '': '' @ toString e)))]))"
proof -
  obtain r s1 h where
    b: "subscribeSpeaker_try env A feedId (snd (subscribeSpeaker_enter A feedId s)) = (r, s1)"
    and sd: "subscribed A h s r s1"
    and whole: "subscribeSpeaker env A feedId s =
       (case r of
          Inl e \<Rightarrow> (Inr (), s1\<lparr>trace := trace s1 @
            [Log Err (''[JanusClient] Failed to subscribe to speaker '' @ A @ '':''),
             Emit (WarningEvent (Error (''[JanusClient] Failed to subscribe to speaker '' @
                                          A @ '': '' @ toString e)))]\<rparr>)
        | Inr x \<Rightarrow> (Inr (), s1))"
    using subscribeSpeaker_outcome [of env A feedId s] by blast
  show ?thesis
    using b sd whole by (cases r) (auto simp: subscribed_def update_conv')
qed

theorem subscribeSpeaker_isolates_failure_witness:
  "fst (subscribeSpeaker gateway_down ''alice'' 55 bob_client) = Inr () \<and>
   map_of (subscribers (snd (subscribeSpeaker gateway_down ''alice'' 55 bob_client))) ''bob'' =
     Some \<lparr>sub_handleId = 201, sub_pc = 0\<rparr> \<and>
   subscribers (snd (subscribeSpeaker gateway_down ''alice'' 55 bob_client)) =
     [(''bob'', \<lparr>sub_handleId = 201, sub_pc = 0\<rparr>)] \<and>
   (\<exists>t. trace (snd (subscribeSpeaker gateway_down ''alice'' 55 bob_client)) = t @
      [Log Err ''[JanusClient] Failed to subscribe to speaker alice:'',
       Emit (WarningEvent (Error
         ''[JanusClient] Failed to subscribe to speaker alice: TypeError: fetch failed''))])"
proof -
  have failed: "fst (subscribeSpeaker_try gateway_down ''alice'' 55
                  (snd (subscribeSpeaker_enter ''alice'' 55 bob_client))) = Inl (TypeError ''fetch failed'')"
    by (simp add: run subscribeSpeaker_try_def subscribeSpeaker_enter_def attachPlugin_def
        gateway_down_def bob_client_def session_client_def new_client_def cong: run_cong)
  have other: "''bob'' \<noteq> ''alice''" by simp
  have before: "subscribers bob_client = [(''bob'', \<lparr>sub_handleId = 201, sub_pc = 0\<rparr>)]"
    by (simp add: bob_client_def)
  show ?thesis
    using subscribeSpeaker_isolates_failure [of gateway_down "''alice''" 55 bob_client]
      failed other before
    by (simp add: toString_def)
qed

subsection \<open>C8: what stopping leaves open\<close>


subsection \<open>C9: a guest and the publisher it finds on joining\<close>

text \<open>
  Claim C9 at a concrete input. A guest initializes against a gateway that accepts every
  request and whose long poll delivers the joined event that lists alice with feed 55.
  The poll loop hands the event to \<^verbatim>\<open>handleJanusEvent\<close>, which logs it and does not emit
  it on \<^verbatim>\<open>'janus'\<close>; the waiter of \<^verbatim>\<open>initializeGuestSpeaker\<close> times out, the method throws
  and \<^verbatim>\<open>subscribeSpeaker\<close> is never called. Whether the answer to the poll is handled
  before the waiter exists, as in this run (see \<open>startPolling\<close>), or while it is
  registered, as in the last line, makes no difference: the promise stays pending. This
  is the defect of C1.
  (The statements after the \<^verbatim>\<open>await\<close>, given the event, do call
  \<^verbatim>\<open>subscribeSpeaker("alice", 55)\<close> once and start no feed discovery:
  \<open>joined_guest_subscribes_once\<close>.)
\<close>

theorem guest_never_sees_joined_event:
  "is_joined (joined_event 7 [alice]) \<and>
   fst (initializeGuestSpeaker gateway_guest ''uuid'' (new_client True)) =
     Inl (Error ''[JanusClient] Timeout waiting for Guest Speaker joined event event'') \<and>
   subscribeCalls (snd (initializeGuestSpeaker gateway_guest ''uuid'' (new_client True))) = [] \<and>
   Log Info ''[JanusClient] Joined room as''
     \<in> set (trace (snd (initializeGuestSpeaker gateway_guest ''uuid'' (new_client True)))) \<and>
   map promise (waiters (snd (doPoll gateway_guest
      (snd (waitForJanusEventWithPredicate is_joined 10000 ''Guest Speaker joined event''
              (polling_client True)))))) = [Pending]"
proof -
  have whole: "initializeGuestSpeaker gateway_guest ''uuid'' (new_client True) =
     (Inl (Error ''[JanusClient] Timeout waiting for Guest Speaker joined event event''),
      (new_client True)
        \<lparr>sessionId := Some 200, handleId := Some 200, pollActive := True,
         janusListeners := [0],
         waiters := [\<lparr> predicate = is_joined, description = ''Guest Speaker joined event'',
                       timer = False,
                       promise = Rejected (Error
                         ''[JanusClient] Timeout waiting for Guest Speaker joined event event'') \<rparr>],
         pollTimer := Some 500, calls := 4,
         trace :=
     [Log Debug ''[JanusClient] initializeGuestSpeaker() called'',
      Fetch Create_session,
      Log Debug ''[JanusClient] Session created, ID:'',
      Fetch Attach_plugin,
      Log Debug ''[JanusClient] Plugin attached, handle ID:'',
      Log Debug ''[JanusClient] Starting polling...'',
      Fetch Poll,
      Log Debug ''[JanusClient] Received Janus event:'',
      Log Info ''[JanusClient] Joined room as'',
      Schedule_poll 500,
      Set_timeout 0 10000, On_janus 0,
      Fetch (Janus_message (Some 200) Join_publisher No_jsep),
      Reject 0 (Error ''[JanusClient] Timeout waiting for Guest Speaker joined event event''),
      Log Err ''[JanusClient] Guest speaker initialization failed:'',
      Emit (ErrorEvent (Error (''[JanusClient] Guest speaker initialization failed: '' @
        ''Error: [JanusClient] Timeout waiting for Guest Speaker joined event event'')))]\<rparr>)"
    by (simp add: run waiter_run initializeGuestSpeaker_def createSession_def attachPlugin_def
        startPolling_def doPoll_def doPoll_try_def setTimeout_doPoll_def handleJanusEvent_def
        sendJanusMessage_def is_joined_def joined_event_def alice_def timeoutFires_def
        gateway_guest_def gateway_ok_def new_client_def toString_def falsy_def cong: run_cong)
  have pending: "map promise (waiters (snd (doPoll gateway_guest
      (snd (waitForJanusEventWithPredicate is_joined 10000 ''Guest Speaker joined event''
              (polling_client True)))))) = [Pending]"
    by (simp add: run waiter_run doPoll_def doPoll_try_def setTimeout_doPoll_def
        handleJanusEvent_def is_joined_def joined_event_def alice_def gateway_guest_def
        gateway_ok_def polling_client_def new_client_def falsy_def cong: run_cong)
  have listed: "is_joined (joined_event 7 [alice])"
    by (simp add: is_joined_def joined_event_def)
  show ?thesis
    using listed pending by (simp add: whole subscribeCalls_def)
qed

theorem guest_never_sees_joined_event_witness:
  "subscribeCalls (snd (initializeGuestSpeaker gateway_guest ''uuid'' (new_client True))) = []"
  using guest_never_sees_joined_event by simp

subsection \<open>C10: pushing local audio never throws\<close>

text \<open>
  Claim C10. \<^verbatim>\<open>pushLocalAudio\<close> returns normally for every frame, every client state and
  every behaviour of the libraries. On a client with no peer connection and no audio
  source it warns, calls \<^verbatim>\<open>enableLocalAudio\<close>, which warns and returns, and pushes nothing.
  When the audio source exists and \<^verbatim>\<open>pushPcmData\<close> throws, the error is logged and the
  call returns.
\<close>

theorem pushLocalAudio_never_throws:
  "fst (pushLocalAudio env samples sampleRate channels s) = Inr () \<and>
   (pc s = None \<and> \<not> localAudioSource s \<longrightarrow>
      pushLocalAudio env samples sampleRate channels s =
        (Inr (), s\<lparr>trace := trace s @
           [Log Warn ''[JanusClient] No localAudioSource => enabling now...'',
            Log Warn ''[JanusClient] enableLocalAudio => No RTCPeerConnection'']\<rparr>)) \<and>
   (localAudioSource s \<and> throws env (calls s) \<longrightarrow>
      pushLocalAudio env samples sampleRate channels s =
        (Inr (), s\<lparr>calls := Suc (calls s), trace := trace s @
           [External None (Push_pcm_data samples sampleRate channels),
            Log Err ''[JanusClient] Error pushing local audio:'']\<rparr>))"
proof (intro conjI impI)
  show "fst (pushLocalAudio env samples sampleRate channels s) = Inr ()"
    by (rule returns_unit) (rule returns_pushLocalAudio)
next
  assume "pc s = None \<and> \<not> localAudioSource s"
  then show "pushLocalAudio env samples sampleRate channels s =
        (Inr (), s\<lparr>trace := trace s @
           [Log Warn ''[JanusClient] No localAudioSource => enabling now...'',
            Log Warn ''[JanusClient] enableLocalAudio => No RTCPeerConnection'']\<rparr>)"
    by (simp add: pushLocalAudio_def enableLocalAudio_def monad_defs)
next
  assume "localAudioSource s \<and> throws env (calls s)"
  then show "pushLocalAudio env samples sampleRate channels s =
        (Inr (), s\<lparr>calls := Suc (calls s), trace := trace s @
           [External None (Push_pcm_data samples sampleRate channels),
            Log Err ''[JanusClient] Error pushing local audio:'']\<rparr>)"
    by (simp add: pushLocalAudio_def external_def monad_defs)
qed

theorem pushLocalAudio_never_throws_witness:
  "pushLocalAudio gateway_ok [1, - 2] 48000 1 (new_client True) =
     (Inr (), (new_client True)\<lparr>trace :=
        [Log Warn ''[JanusClient] No localAudioSource => enabling now...'',
         Log Warn ''[JanusClient] enableLocalAudio => No RTCPeerConnection'']\<rparr>) \<and>
   pushLocalAudio library_failing [1, - 2] 48000 1 audio_client =
     (Inr (), audio_client\<lparr>calls := 1, trace :=
        [External None (Push_pcm_data [1, - 2] 48000 1),
         Log Err ''[JanusClient] Error pushing local audio:'']\<rparr>)"
proof -
  have a: "pc (new_client True) = None \<and> \<not> localAudioSource (new_client True)"
    by (simp add: new_client_def)
  have b: "localAudioSource audio_client \<and> throws library_failing (calls audio_client)"
    by (simp add: audio_client_def library_failing_def)
  have c: "trace (new_client True) = []" "calls audio_client = 0" "trace audio_client = []"
    by (simp_all add: new_client_def audio_client_def publisher_client_def session_client_def)
  show ?thesis
    using pushLocalAudio_never_throws [of gateway_ok "[1, - 2]" 48000 1 "new_client True"]
      pushLocalAudio_never_throws [of library_failing "[1, - 2]" 48000 1 audio_client] a b
    by (simp add: c)
qed

end
